theory Spec2Isabelle
  imports Complex_Main
begin

section \<open>Brighter-fatter kernel estimation: the numerical core of \<open>bfCoeffCalc.py\<close>\<close>

text \<open>
  The development embeds the numerical routines of \<open>BfTask\<close>
  (\<open>python/lsst/cp/pipe/bfCoeffCalc.py\<close>). Pixel and correlation values are
  modelled as real numbers: rounding is not modelled, and the non-finite values that numpy
  produces on a division by zero are outside the model (every theorem that evaluates such a
  division carries the hypothesis that the divisor is not zero).
\<close>

subsection \<open>Errors\<close>

text \<open>
  The Python exceptions a run of the modelled routines can end with. \<open>LibraryError\<close>
  stands for an exception raised inside a primitive of a library the file imports
  (\<open>afwMath.makeStatistics\<close>, \<open>afwMath.makeBackground\<close>,
  \<open>np.linalg.lstsq\<close>, \<open>scipy.stats.linregress\<close>): the source never catches one,
  so it ends the call unchanged.
\<close>

datatype error =
    AssertionError
  | RuntimeError
  | ValueError
  | IndexError
  | KeyError
  | NameError
  | ZeroDivisionError
  | LibraryError string

subsection \<open>Two-dimensional arrays\<close>

text \<open>
  A numpy array of shape \<open>(r, c)\<close> is a list of \<open>r\<close> rows of \<open>c\<close> entries:
  \<open>A ! i ! j\<close> is \<open>A[i, j]\<close>.
\<close>

type_synonym array2 = "real list list"

definition nrows :: "array2 \<Rightarrow> nat" where
  "nrows A = length A"

definition ncols :: "array2 \<Rightarrow> nat" where
  "ncols A = (case A of [] \<Rightarrow> 0 | r # _ \<Rightarrow> length r)"

text \<open>An array of side \<open>n\<close>: \<open>n\<close> rows of \<open>n\<close> entries.\<close>

definition square_of :: "nat \<Rightarrow> array2 \<Rightarrow> bool" where
  "square_of n A = (length A = n \<and> list_all (\<lambda>r. length r = n) A)"

definition zeros :: "nat \<Rightarrow> nat \<Rightarrow> array2" where
  "zeros r c = replicate r (replicate c 0)"

text \<open>\<open>A[i, j] = v\<close> for indices in range (the callers below only write in range).\<close>

definition set2 :: "array2 \<Rightarrow> nat \<Rightarrow> nat \<Rightarrow> real \<Rightarrow> array2" where
  "set2 A i j v = A[i := (A ! i)[j := v]]"

text \<open>\<open>np.sum(A)\<close> and \<open>np.sum(np.abs(A))\<close>.\<close>

definition sum2 :: "array2 \<Rightarrow> real" where
  "sum2 A = sum_list (map sum_list A)"

definition sumabs2 :: "array2 \<Rightarrow> real" where
  "sumabs2 A = sum_list (map (\<lambda>r. sum_list (map abs r)) A)"

subsection \<open>\<open>_tileArray\<close>\<close>

text \<open>
  The body of the double loop of \<open>_tileArray\<close>: the four assignments for the quarter
  index \<open>(i, j)\<close>. With \<open>i, j \<le> length\<close> the Python indices \<open>-i+length\<close> and
  \<open>-j+length\<close> are not negative, so they are the natural numbers \<open>len - i\<close> and
  \<open>len - j\<close>.
\<close>

definition tile_body :: "array2 \<Rightarrow> nat \<Rightarrow> nat \<Rightarrow> nat \<Rightarrow> array2 \<Rightarrow> array2" where
  "tile_body in_array len i j output =
     (let v = in_array ! i ! j;
          o1 = set2 output (i + len) (j + len) v;
          o2 = set2 o1 (len - i) (j + len) v;
          o3 = set2 o2 (i + len) (len - j) v
      in set2 o3 (len - i) (len - j) v)"

definition tile_loops :: "array2 \<Rightarrow> nat \<Rightarrow> array2 \<Rightarrow> array2" where
  "tile_loops in_array len output =
     fold (\<lambda>i out. fold (\<lambda>j out'. tile_body in_array len i j out') [0..<len + 1] out)
       [0..<len + 1] output"

text \<open>
  \<open>_tileArray\<close>. The assertion compares the two entries of the shape; on a \<open>0 \<times> 0\<close>
  array \<open>length\<close> is \<open>-1\<close> and \<open>np.zeros((-1, -1))\<close> raises \<open>ValueError\<close>.
\<close>

definition tileArray :: "array2 \<Rightarrow> error + array2" where
  "tileArray in_array =
     (if nrows in_array \<noteq> ncols in_array then Inl AssertionError
      else if nrows in_array = 0 then Inl ValueError
      else let len = nrows in_array - 1
           in Inr (tile_loops in_array len (zeros (2 * len + 1) (2 * len + 1))))"

subsection \<open>Configuration\<close>

text \<open>
  \<open>BfTaskConfig\<close>, the fields the modelled routines read. The lag and the border
  widths are taken non-negative.
\<close>

datatype level = AMP | CCD

record config =
  maxIterRegression :: int
  nSigmaClipGainCalc :: real
  nSigmaClipRegression :: real
  xcorrCheckRejectLevel :: real
  maxIterSOR :: int
  eLevelSOR :: real
  nSigmaClipKernelGen :: real
  nSigmaClipXCorr :: real
  maxLag :: nat
  nPixBorderGainCalc :: nat
  nPixBorderXCorr :: nat
  biasCorr :: real
  backgroundBinSize :: nat
  fixPtcThroughOrigin :: bool
  level :: level

text \<open>The defaults the configuration class declares.\<close>

definition default_config :: config where
  "default_config =
     \<lparr> maxIterRegression = 10, nSigmaClipGainCalc = 5, nSigmaClipRegression = 3,
       xcorrCheckRejectLevel = 1, maxIterSOR = 10000, eLevelSOR = 5 / 10 ^ 14,
       nSigmaClipKernelGen = 4, nSigmaClipXCorr = 5, maxLag = 5, nPixBorderGainCalc = 10,
       nPixBorderXCorr = 10, biasCorr = 9241 / 10000, backgroundBinSize = 128,
       fixPtcThroughOrigin = True, level = CCD \<rparr>"

subsection \<open>Library primitives\<close>

text \<open>
  The routines call primitives of libraries that are not part of the file. The model takes
  them as parameters; each may fail, and its exception ends the calling routine.
  \<^item> \<open>meanclip nSigma xs\<close>, \<open>varclip nSigma xs\<close> and \<open>median nSigma xs\<close>:
    \<open>afwMath.makeStatistics(xs, MEANCLIP / VARIANCECLIP / MEDIAN, sctrl).getValue()\<close>
    on the pixels \<open>xs\<close> with \<open>sctrl.setNumSigmaClip(nSigma)\<close>;
  \<^item> \<open>lstsq_origin x y\<close>: \<open>np.linalg.lstsq(x[:, np.newaxis], y)[0][0]\<close>;
  \<^item> \<open>lstsq_line x y\<close>: the pair \<open>np.linalg.lstsq(np.vstack([x, ones]).T, y)[0]\<close>;
  \<^item> \<open>linregress x y\<close>: \<open>scipy.stats.linregress\<close>, whose values are only logged;
  \<^item> \<open>background binsize nSigma img\<close>: the image
    \<open>makeBackground(img, BackgroundControl(w // binsize, h // binsize, sctrl, MEANCLIP))
    .getImageF(CUBIC_SPLINE, REDUCE_INTERP_ORDER)\<close>.
\<close>

record lib =
  meanclip :: "real \<Rightarrow> real list \<Rightarrow> error + real"
  varclip :: "real \<Rightarrow> real list \<Rightarrow> error + real"
  median :: "real \<Rightarrow> real list \<Rightarrow> error + real"
  lstsq_origin :: "real list \<Rightarrow> real list \<Rightarrow> error + real"
  lstsq_line :: "real list \<Rightarrow> real list \<Rightarrow> error + real \<times> real"
  linregress :: "real list \<Rightarrow> real list \<Rightarrow> error + unit"
  background :: "nat \<Rightarrow> real \<Rightarrow> array2 \<Rightarrow> error + array2"

subsection \<open>\<open>_SOR\<close>\<close>

text \<open>
  The arrays and the relaxation factor of \<open>_SOR\<close>. The counter \<open>nIter\<close> is
  carried beside them: it counts the passes of the \<open>while\<close> loop that ran to their
  end.
\<close>

record sor_state =
  func :: array2
  resid :: array2
  omega :: real

definition dx :: real where
  "dx = 1"

text \<open>\<open>range(start, stop, 2)\<close>.\<close>

definition range2 :: "nat \<Rightarrow> nat \<Rightarrow> nat list" where
  "range2 start stop = map (\<lambda>k. start + 2 * k) [0..<(stop - start + 1) div 2]"

text \<open>
  The residual loop before the iteration:
  \<open>resid[i, j] = func[i, j-1] + func[i, j+1] + func[i-1, j] + func[i+1, j] - 4*func[i, j]
  - source[i-1, j-1]\<close> for \<open>i\<close> in \<open>range(1, func.shape[0]-1)\<close> and \<open>j\<close> in
  \<open>range(1, func.shape[1]-1)\<close>.
\<close>

definition init_point :: "array2 \<Rightarrow> array2 \<Rightarrow> nat \<Rightarrow> nat \<Rightarrow> array2 \<Rightarrow> array2" where
  "init_point source f i j r =
     set2 r i j (f ! i ! (j - 1) + f ! i ! (j + 1) + f ! (i - 1) ! j + f ! (i + 1) ! j
                 - 4 * f ! i ! j - source ! (i - 1) ! (j - 1))"

definition init_resid :: "array2 \<Rightarrow> array2 \<Rightarrow> array2 \<Rightarrow> array2" where
  "init_resid source f r =
     fold (\<lambda>i r1. fold (\<lambda>j r2. init_point source f i j r2) [1..<ncols f - 1] r1)
       [1..<nrows f - 1] r"

text \<open>
  One update of the iteration:
  \<open>resid[i, j] = float(func[i, j-1] + func[i, j+1] + func[i-1, j] + func[i+1, j]
  - 4.0*func[i, j] - dx*dx*source[i-1, j-1])\<close>, then
  \<open>func[i, j] += omega*resid[i, j]*.25\<close>.
\<close>

definition sor_point :: "array2 \<Rightarrow> nat \<Rightarrow> nat \<Rightarrow> sor_state \<Rightarrow> sor_state" where
  "sor_point source i j s =
     (let f = func s;
          r = f ! i ! (j - 1) + f ! i ! (j + 1) + f ! (i - 1) ! j + f ! (i + 1) ! j
              - 4 * f ! i ! j - dx * dx * source ! (i - 1) ! (j - 1)
      in s\<lparr> resid := set2 (resid s) i j r,
            func := set2 f i j (f ! i ! j + omega s * r * (25 / 100)) \<rparr>)"

definition sor_block :: "array2 \<Rightarrow> nat list \<Rightarrow> nat list \<Rightarrow> sor_state \<Rightarrow> sor_state" where
  "sor_block source is js s =
     fold (\<lambda>i s1. fold (\<lambda>j s2. sor_point source i j s2) js s1) is s"

text \<open>
  The two double loops of one pass: for an even \<open>nIter\<close> the points with both indices
  odd, then those with both even; for an odd \<open>nIter\<close> the points (odd, even), then
  (even, odd). Every range ends at \<open>func.shape[0]-1\<close>.
\<close>

definition half_sweep :: "array2 \<Rightarrow> nat \<Rightarrow> sor_state \<Rightarrow> sor_state" where
  "half_sweep source nIter s =
     (let n1 = nrows (func s) - 1
      in if nIter mod 2 = 0
         then sor_block source (range2 2 n1) (range2 2 n1)
                (sor_block source (range2 1 n1) (range2 1 n1) s)
         else sor_block source (range2 2 n1) (range2 1 n1)
                (sor_block source (range2 1 n1) (range2 2 n1) s))"

text \<open>The update of the relaxation factor at the end of a pass.\<close>

definition next_omega :: "real \<Rightarrow> nat \<Rightarrow> real \<Rightarrow> real" where
  "next_omega rhoSpe n w =
     (if n = 0 then 1 / (1 - rhoSpe * rhoSpe / 2) else 1 / (1 - rhoSpe * rhoSpe * w / 4))"

definition advance :: "real \<Rightarrow> nat \<Rightarrow> sor_state \<Rightarrow> sor_state" where
  "advance rhoSpe nIter s = s\<lparr> omega := next_omega rhoSpe nIter (omega s) \<rparr>"

text \<open>\<open>outError = np.sum(np.abs(resid))\<close> and the test \<open>outError < inError*eLevel\<close>.\<close>

definition converged :: "real \<Rightarrow> real \<Rightarrow> sor_state \<Rightarrow> bool" where
  "converged inError eLevel s = (sumabs2 (resid s) < inError * eLevel)"

text \<open>
  The \<open>while nIter < maxIter*2\<close> loop; \<open>budget\<close> is \<open>maxIter*2\<close>. A pass that
  meets the convergence test leaves the loop (\<open>break\<close>) before \<open>omega\<close> and
  \<open>nIter\<close> change. The result is the final \<open>nIter\<close> with the final state.
\<close>

function sor_loop ::
  "array2 \<Rightarrow> real \<Rightarrow> real \<Rightarrow> real \<Rightarrow> nat \<Rightarrow> nat \<Rightarrow> sor_state \<Rightarrow> nat \<times> sor_state" where
  "sor_loop source rhoSpe inError eLevel budget nIter s =
     (if nIter < budget
      then (let s1 = half_sweep source nIter s
            in if converged inError eLevel s1 then (nIter, s1)
               else sor_loop source rhoSpe inError eLevel budget (nIter + 1)
                      (advance rhoSpe nIter s1))
      else (nIter, s))"
  by pat_completeness auto
termination
  by (relation "measure (\<lambda>(source, rhoSpe, inError, eLevel, budget, nIter, s). budget - nIter)")
    auto

declare sor_loop.simps [simp del]

text \<open>What \<open>_SOR\<close> logs: failure or success, with \<open>nIter//2\<close>.\<close>

datatype sor_log = Failure nat | Success nat

text \<open>\<open>func[1:-1, 1:-1]\<close>.\<close>

definition interior :: "array2 \<Rightarrow> array2" where
  "interior f = map (\<lambda>row. butlast (tl row)) (butlast (tl f))"

text \<open>The state before the loop and the state after it.\<close>

definition sor_init :: "array2 \<Rightarrow> sor_state" where
  "sor_init source =
     (let f = zeros (nrows source + 2) (ncols source + 2)
      in \<lparr> func = f, resid = init_resid source f (zeros (nrows source + 2) (ncols source + 2)),
           omega = 1 \<rparr>)"

definition sor_final :: "array2 \<Rightarrow> nat \<Rightarrow> real \<Rightarrow> nat \<times> sor_state" where
  "sor_final source budget eLevel =
     (let s0 = sor_init source
      in sor_loop source (cos (pi / real (nrows source))) (sumabs2 (resid s0)) eLevel budget 0 s0)"

text \<open>
  \<open>_SOR\<close>. An argument that is \<open>None\<close> or zero is replaced by the configured
  value. \<open>np.pi/source.shape[0]\<close> divides Python numbers, so an array without rows
  raises \<open>ZeroDivisionError\<close>. The loops run their column index up to
  \<open>func.shape[0]-1\<close> (the source assumes a square grid): with fewer columns than rows
  the first pass reads outside \<open>func\<close> and raises \<open>IndexError\<close>; with at least as
  many columns as rows every index is in range.
\<close>

definition SOR :: "config \<Rightarrow> array2 \<Rightarrow> int option \<Rightarrow> real option \<Rightarrow> error + sor_log \<times> array2" where
  "SOR cfg source maxIter eLevel =
     (let maxIter1 = (case maxIter of None \<Rightarrow> maxIterSOR cfg
                       | Some m \<Rightarrow> if m = 0 then maxIterSOR cfg else m);
          eLevel1 = (case eLevel of None \<Rightarrow> eLevelSOR cfg
                      | Some e \<Rightarrow> if e = 0 then eLevelSOR cfg else e);
          budget = nat (maxIter1 * 2)
      in if nrows source = 0 then Inl ZeroDivisionError
         else if ncols source < nrows source \<and> 0 < budget then Inl IndexError
         else let (nIter, s) = sor_final source budget eLevel1
              in Inr (if budget \<le> nIter then Failure (nIter div 2) else Success (nIter div 2),
                      interior (func s)))"

subsection \<open>\<open>_generateKernel\<close>\<close>

text \<open>
  The correlation arrays are numpy arrays that the caller owns and the routine changes in
  place. The store maps the address of an array to its contents; \<open>corrs\<close> is the
  list of the addresses passed in, in which an address may occur more than once.
\<close>

type_synonym addr = nat

type_synonym store = "addr \<Rightarrow> array2"

text \<open>The warnings of the loop, with the index \<open>corrNum\<close> of the sample.\<close>

datatype gk_warning = SkippedItem nat | SumTooHigh nat

text \<open>
  The variables of the loop: the list \<open>xcorrList\<close> of the retained full arrays, the
  variable \<open>fullCorr\<close> (unbound before the first tiling) and the warnings logged.
\<close>

record gk_acc =
  xcorrList :: "array2 list"
  fullCorr :: "array2 option"
  warnings :: "gk_warning list"

text \<open>\<open>corr /= -float(1.0*(mean1**2+mean2**2))\<close>, on every entry of the array.\<close>

definition normalize :: "real \<Rightarrow> real \<Rightarrow> array2 \<Rightarrow> array2" where
  "normalize mean1 mean2 corr = map (map (\<lambda>v. v / (- (1 * (mean1\<^sup>2 + mean2\<^sup>2))))) corr"

text \<open>
  \<open>xcorrCheck = np.abs(np.sum(fullCorr))/np.sum(np.abs(fullCorr))\<close> and the test
  \<open>xcorrCheck > rejectLevel\<close>. The divisor is zero only when every entry is zero; then
  numpy's quotient is not a number and the comparison is false.
\<close>

definition xcorr_rejected :: "real \<Rightarrow> array2 \<Rightarrow> bool" where
  "xcorr_rejected rejectLevel full =
     (sumabs2 full \<noteq> 0 \<and> \<bar>sum2 full\<bar> / sumabs2 full > rejectLevel)"

text \<open>
  One pass of the \<open>for\<close> loop, for the sample number \<open>corrNum\<close> with the means
  \<open>(mean1, mean2)\<close> and the array at address \<open>a\<close>. The store is returned also when
  the pass raises: what was written before stays written. Reading \<open>corr[0, 0]\<close> of an
  array without entries raises \<open>IndexError\<close>.
\<close>

definition gk_sample ::
  "real \<Rightarrow> nat \<Rightarrow> (real \<times> real) \<times> addr \<Rightarrow> store \<Rightarrow> gk_acc \<Rightarrow> store \<times> (error + gk_acc)" where
  "gk_sample rejectLevel corrNum sample st acc =
     (let mean1 = fst (fst sample); mean2 = snd (fst sample); a = snd sample
      in if nrows (st a) = 0 \<or> ncols (st a) = 0 then (st, Inl IndexError)
         else let st1 = st(a := set2 (st a) 0 0 (st a ! 0 ! 0 - (mean1 + mean2)))
              in if st1 a ! 0 ! 0 > 0
                 then (st1, Inr (acc\<lparr> warnings := warnings acc @ [SkippedItem corrNum] \<rparr>))
                 else let st2 = st1(a := normalize mean1 mean2 (st1 a))
                      in case tileArray (st2 a) of
                           Inl e \<Rightarrow> (st2, Inl e)
                         | Inr full \<Rightarrow>
                             if xcorr_rejected rejectLevel full
                             then (st2, Inr (acc\<lparr> fullCorr := Some full,
                                                  warnings := warnings acc @ [SumTooHigh corrNum] \<rparr>))
                             else (st2, Inr (acc\<lparr> xcorrList := xcorrList acc @ [full],
                                                  fullCorr := Some full \<rparr>)))"



fun collect :: "('a \<Rightarrow> error + 'b) \<Rightarrow> 'a list \<Rightarrow> error + 'b list" where
  "collect f [] = Inr []"
| "collect f (x # xs) =
     (case f x of
        Inl e \<Rightarrow> Inl e
      | Inr y \<Rightarrow> (case collect f xs of Inl e \<Rightarrow> Inl e | Inr ys \<Rightarrow> Inr (y # ys)))"



subsection \<open>Images\<close>

text \<open>
  An image is the array of its pixel rows: \<open>img ! y ! x\<close> is the pixel in column
  \<open>x\<close> of row \<open>y\<close>, and an image slice \<open>img[x0:x1, y0:y1]\<close> names the columns
  first. Only the image plane of a masked image is modelled.
\<close>

definition width :: "array2 \<Rightarrow> nat" where
  "width img = ncols img"

definition height :: "array2 \<Rightarrow> nat" where
  "height img = nrows img"

text \<open>
  The bounds of a Python slice on an axis of length \<open>n\<close>, clipped as
  \<open>slice.indices\<close> does: \<open>[a:b]\<close> with \<open>a, b \<ge> 0\<close>, and \<open>[a:-b]\<close>, where
  \<open>-0\<close> is \<open>0\<close>.
\<close>

definition slice_to :: "nat \<Rightarrow> nat \<Rightarrow> nat \<Rightarrow> nat \<times> nat" where
  "slice_to a b n = (min a n, min b n)"

definition slice_neg :: "nat \<Rightarrow> nat \<Rightarrow> nat \<Rightarrow> nat \<times> nat" where
  "slice_neg a b n = (min a n, if b = 0 then 0 else n - b)"

text \<open>
  The pixels of the columns \<open>[x0, x1)\<close> and rows \<open>[y0, y1)\<close>; an empty range gives
  an image without pixels.
\<close>

definition sub_image :: "nat \<times> nat \<Rightarrow> nat \<times> nat \<Rightarrow> array2 \<Rightarrow> array2" where
  "sub_image xr yr img =
     map (\<lambda>row. take (snd xr - fst xr) (drop (fst xr) row))
       (take (snd yr - fst yr) (drop (fst yr) img))"

text \<open>An in-place operation through a view of these columns and rows.\<close>

definition inside :: "nat \<times> nat \<Rightarrow> nat \<times> nat \<Rightarrow> nat \<Rightarrow> nat \<Rightarrow> bool" where
  "inside xr yr x y = (fst xr \<le> x \<and> x < snd xr \<and> fst yr \<le> y \<and> y < snd yr)"

definition map_view :: "(real \<Rightarrow> real) \<Rightarrow> nat \<times> nat \<Rightarrow> nat \<times> nat \<Rightarrow> array2 \<Rightarrow> array2" where
  "map_view f xr yr img =
     map (\<lambda>y. map (\<lambda>x. if inside xr yr x y then f (img ! y ! x) else img ! y ! x)
                 [0..<length (img ! y)])
       [0..<length img]"

text \<open>The pixels of an image, as the statistics primitives receive them.\<close>

definition pixels :: "array2 \<Rightarrow> real list" where
  "pixels img = concat img"

text \<open>Pixelwise difference and product of two images of the same dimensions.\<close>

definition img_minus :: "array2 \<Rightarrow> array2 \<Rightarrow> array2" where
  "img_minus A B = map2 (map2 (\<lambda>a b. a - b)) A B"

definition img_times :: "array2 \<Rightarrow> array2 \<Rightarrow> array2" where
  "img_times A B = map2 (map2 (\<lambda>a b. a * b)) A B"

text \<open>\<open>img[border:-border, border:-border]\<close>.\<close>

definition crop :: "nat \<Rightarrow> array2 \<Rightarrow> array2" where
  "crop border img =
     sub_image (slice_neg border border (width img)) (slice_neg border border (height img)) img"

subsection \<open>\<open>_crossCorrelate\<close>\<close>

text \<open>
  One entry of the correlation: the clone \<open>diff[xlag:xlag + width, ylag:ylag + height]\<close>,
  less its clipped mean, times \<open>dim0\<close>; the clipped mean of the product, divided by
  \<open>biasCorr\<close>. The quotient is one of Python floats and raises
  \<open>ZeroDivisionError\<close> on a zero divisor.
\<close>

definition xcorr_entry ::
  "lib \<Rightarrow> real \<Rightarrow> real \<Rightarrow> array2 \<Rightarrow> array2 \<Rightarrow> nat \<Rightarrow> nat \<Rightarrow> nat \<Rightarrow> nat \<Rightarrow> error + real" where
  "xcorr_entry L sigma bias diff dim0 w h xlag ylag =
     (let dim_xy = sub_image (slice_to xlag (xlag + w) (width diff))
                     (slice_to ylag (ylag + h) (height diff)) diff
      in case meanclip L sigma (pixels dim_xy) of
           Inl e \<Rightarrow> Inl e
         | Inr m \<Rightarrow>
             (case meanclip L sigma
                     (pixels (img_times (map (map (\<lambda>v. v - m)) dim_xy) dim0)) of
                Inl e \<Rightarrow> Inl e
              | Inr v \<Rightarrow> if bias = 0 then Inl ZeroDivisionError else Inr (v / bias)))"

text \<open>
  \<open>_crossCorrelate\<close> (the debug outputs are off). \<open>dim0\<close> is a view of
  \<open>diff\<close>, so subtracting its clipped mean changes \<open>diff\<close> in those pixels; the
  patches of the loop are cut from the changed \<open>diff\<close>. The two statistics of the
  debug lines are computed before the logger drops them. What the image library does with a
  slice that holds no pixel is not in the file: the model forms the image without pixels and
  hands it on, so that the primitive which receives it decides.
\<close>

definition crossCorrelate :: "lib \<Rightarrow> config \<Rightarrow> array2 \<Rightarrow> array2 \<Rightarrow> error + array2" where
  "crossCorrelate L cfg maskedIm0 maskedIm1 =
     (let sigma = nSigmaClipXCorr cfg;
          diff1 = crop (nPixBorderXCorr cfg) (img_minus maskedIm0 maskedIm1)
      in case background L (backgroundBinSize cfg) sigma diff1 of
           Inl e \<Rightarrow> Inl e
         | Inr bkgd \<Rightarrow>
             (let diff2 = img_minus diff1 bkgd
              in case median L sigma (pixels diff2) of
                   Inl e \<Rightarrow> Inl e
                 | Inr _ \<Rightarrow>
                     (case varclip L sigma (pixels diff2) of
                        Inl e \<Rightarrow> Inl e
                      | Inr _ \<Rightarrow>
                          (let xr = slice_neg 0 (maxLag cfg) (width diff2);
                               yr = slice_neg 0 (maxLag cfg) (height diff2)
                           in case meanclip L sigma (pixels (sub_image xr yr diff2)) of
                                Inl e \<Rightarrow> Inl e
                              | Inr m0 \<Rightarrow>
                                  (let diff3 = map_view (\<lambda>v. v - m0) xr yr diff2;
                                       dim0 = sub_image xr yr diff3
                                   in collect (\<lambda>xlag.
                                        collect (\<lambda>ylag.
                                          xcorr_entry L sigma (biasCorr cfg) diff3 dim0
                                            (snd xr - fst xr) (snd yr - fst yr) xlag ylag)
                                          [0..<maxLag cfg + 1])
                                        [0..<maxLag cfg + 1])))))"

subsection \<open>\<open>_prepareImage\<close>\<close>

text \<open>
  An exposure: its image, the amplifiers of its detector (the name, the bounding box as
  the column range and the row range) and the detector id.
\<close>

record amp =
  amp_name :: string
  amp_x :: "nat \<times> nat"
  amp_y :: "nat \<times> nat"

record exposure =
  image :: array2
  amps :: "amp list"
  det_id :: int

text \<open>
  The keys of the returned dictionaries: an amplifier name or the detector id.
\<close>

datatype key = AmpName string | DetId int

text \<open>
  The variables of the loop: the image \<open>mi\<close> changed in place, its clone
  \<open>temp\<close>, the view \<open>rescaleIm\<close> (unbound before the first pass) and the two
  dictionaries. A view is kept as its ranges into \<open>mi\<close>.
\<close>

record prep_state =
  mi :: array2
  temp :: array2
  rescaleIm :: "((nat \<times> nat) \<times> (nat \<times> nat)) option"
  means_d :: "key \<rightharpoonup> real"
  returnAreas :: "key \<rightharpoonup> (nat \<times> nat) \<times> (nat \<times> nat)"

text \<open>
  One pass of the loop over the amplifiers. The clipped mean of the debug line is computed
  before the logger drops it. A missing gain raises \<open>KeyError\<close>.
\<close>

definition prep_amp ::
  "lib \<Rightarrow> config \<Rightarrow> (string \<rightharpoonup> real) \<Rightarrow> level \<Rightarrow> amp \<Rightarrow> prep_state \<Rightarrow> error + prep_state" where
  "prep_amp L cfg gains lvl a s =
     (let sigma = nSigmaClipXCorr cfg; xr = amp_x a; yr = amp_y a
      in case meanclip L sigma (pixels (sub_image xr yr (mi s))) of
           Inl e \<Rightarrow> Inl e
         | Inr mean \<Rightarrow>
             (case gains (amp_name a) of
                None \<Rightarrow> Inl KeyError
              | Some gain \<Rightarrow>
                  (let mi1 = map_view (\<lambda>v. v * gain) xr yr (mi s);
                       temp1 = map_view (\<lambda>v. v * gain) xr yr (temp s)
                   in case meanclip L sigma (pixels (sub_image xr yr mi1)) of
                        Inl e \<Rightarrow> Inl e
                      | Inr _ \<Rightarrow>
                          (let s1 = s\<lparr> mi := map_view (\<lambda>v. v - mean * gain) xr yr mi1,
                                       temp := temp1, rescaleIm := Some (xr, yr) \<rparr>
                           in if lvl = AMP
                              then (case meanclip L sigma
                                           (pixels (crop (nPixBorderXCorr cfg)
                                                      (sub_image xr yr temp1))) of
                                      Inl e \<Rightarrow> Inl e
                                    | Inr m \<Rightarrow>
                                        Inr (s1\<lparr> means_d := (means_d s1)(AmpName (amp_name a) \<mapsto> m),
                                                 returnAreas := (returnAreas s1)
                                                   (AmpName (amp_name a) \<mapsto> (xr, yr)) \<rparr>))
                              else Inr s1))))"

fun prep_loop ::
  "lib \<Rightarrow> config \<Rightarrow> (string \<rightharpoonup> real) \<Rightarrow> level \<Rightarrow> amp list \<Rightarrow> prep_state \<Rightarrow> error + prep_state" where
  "prep_loop L cfg gains lvl [] s = Inr s"
| "prep_loop L cfg gains lvl (a # rest) s =
     (case prep_amp L cfg gains lvl a s of
        Inl e \<Rightarrow> Inl e
      | Inr s1 \<Rightarrow> prep_loop L cfg gains lvl rest s1)"

text \<open>
  \<open>_prepareImage\<close>. At the level \<open>CCD\<close> the entry of \<open>returnAreas\<close> is the
  variable \<open>rescaleIm\<close> as the loop left it, and \<open>NameError\<close> is raised when the
  loop never bound it. The result is the final state: the image a returned view shows is
  \<open>sub_image\<close> of the final \<open>mi\<close> at the ranges of the view.
\<close>

definition prepareImage ::
  "lib \<Rightarrow> config \<Rightarrow> exposure \<Rightarrow> (string \<rightharpoonup> real) \<Rightarrow> level \<Rightarrow> error + prep_state" where
  "prepareImage L cfg exposure gains lvl =
     (case prep_loop L cfg gains lvl (amps exposure)
             \<lparr> mi = image exposure, temp = image exposure, rescaleIm = None,
               means_d = Map.empty, returnAreas = Map.empty \<rparr> of
        Inl e \<Rightarrow> Inl e
      | Inr s \<Rightarrow>
          (if lvl = CCD
           then (case meanclip L (nSigmaClipXCorr cfg)
                        (pixels (crop (nPixBorderXCorr cfg) (temp s))) of
                   Inl e \<Rightarrow> Inl e
                 | Inr m \<Rightarrow>
                     (case rescaleIm s of
                        None \<Rightarrow> Inl NameError
                      | Some v \<Rightarrow>
                          Inr (s\<lparr> means_d := (means_d s)(DetId (det_id exposure) \<mapsto> m),
                                  returnAreas := (returnAreas s)(DetId (det_id exposure) \<mapsto> v) \<rparr>)))
           else Inr s))"

definition returned_image :: "prep_state \<Rightarrow> key \<Rightarrow> array2 option" where
  "returned_image s k = map_option (\<lambda>(xr, yr). sub_image xr yr (mi s)) (returnAreas s k)"

subsection \<open>A reference instance of the library\<close>

text \<open>
  An instance of the primitives on which the routines can be run: statistics without
  clipping (the mean, the population variance, the middle element), the exact least-squares
  solutions of smallest norm, and a zero background. The statistics reject an input without
  values.
\<close>

definition mean_of :: "real list \<Rightarrow> real" where
  "mean_of xs = sum_list xs / real (length xs)"

definition plain_lib :: lib where
  "plain_lib =
     \<lparr> meanclip = (\<lambda>nSigma xs. if xs = [] then Inl (LibraryError ''no pixels'')
                                  else Inr (mean_of xs)),
       varclip = (\<lambda>nSigma xs. if xs = [] then Inl (LibraryError ''no pixels'')
                                 else Inr (mean_of (map (\<lambda>x. (x - mean_of xs)\<^sup>2) xs))),
       median = (\<lambda>nSigma xs. if xs = [] then Inl (LibraryError ''no pixels'')
                                else Inr (sort xs ! (length xs div 2))),
       lstsq_origin = (\<lambda>x y. Inr (if sum_list (map (\<lambda>a. a\<^sup>2) x) = 0 then 0
                                     else sum_list (map2 (\<lambda>a b. a * b) x y)
                                          / sum_list (map (\<lambda>a. a\<^sup>2) x))),
       lstsq_line = (\<lambda>x y.
          let n = real (length x); sx = sum_list x; sy = sum_list y;
              sxx = sum_list (map (\<lambda>a. a\<^sup>2) x); sxy = sum_list (map2 (\<lambda>a b. a * b) x y);
              d = n * sxx - sx\<^sup>2
          in Inr (if d = 0 then (if x = [] then (0, 0)
                                 else (mean_of y * hd x / ((hd x)\<^sup>2 + 1),
                                       mean_of y / ((hd x)\<^sup>2 + 1)))
                  else ((n * sxy - sx * sy) / d, (sy * sxx - sx * sxy) / d))),
       linregress = (\<lambda>x y. Inr ()),
       background = (\<lambda>binsize nSigma img. Inr (map (map (\<lambda>_. 0)) img)) \<rparr>"

subsection \<open>\<open>_iterativeRegression\<close>\<close>

text \<open>
  \<open>index = np.where((res > resMean + nSigmaClip*resStd) | (res < resMean - nSigmaClip*resStd))\<close>:
  the positions of the residuals outside the band.
\<close>

definition outliers :: "real \<Rightarrow> real \<Rightarrow> real \<Rightarrow> real list \<Rightarrow> nat list" where
  "outliers nSigmaClip resMean resStd res =
     filter (\<lambda>i. res ! i > resMean + nSigmaClip * resStd \<or> res ! i < resMean - nSigmaClip * resStd)
       [0..<length res]"

text \<open>\<open>np.delete(x, index)\<close>.\<close>

definition np_delete :: "real list \<Rightarrow> nat list \<Rightarrow> real list" where
  "np_delete xs index = map (\<lambda>i. xs ! i) (filter (\<lambda>i. i \<notin> set index) [0..<length xs])"

text \<open>
  The test \<open>np.shape(np.where(index))[1] == 0 or (nIter >= maxIter)\<close>. \<open>index\<close> is
  the one-element tuple that \<open>np.where\<close> returned, and \<open>np.where(index)\<close> looks for
  the non-zero entries of the positions it holds: the first disjunct counts the outlier
  positions other than position 0.
\<close>

definition reg_stop :: "nat list \<Rightarrow> int \<Rightarrow> int \<Rightarrow> bool" where
  "reg_stop index nIter maxIter = (filter (\<lambda>i. i \<noteq> 0) index = [] \<or> nIter \<ge> maxIter)"

text \<open>
  The loop of the branch \<open>fixThroughOrigin\<close>. \<open>slope\<close> is the variable of that name,
  unbound before the first pass. The arrays \<open>x\<close> and \<open>y\<close> have the same length. The
  debug line evaluates \<open>np.max(res)\<close>, which raises \<open>ValueError\<close> on an empty array.
\<close>

function reg_fixed ::
  "lib \<Rightarrow> real \<Rightarrow> int \<Rightarrow> int \<Rightarrow> real option \<Rightarrow> real list \<Rightarrow> real list \<Rightarrow> error + real option" where
  "reg_fixed L nSigmaClip maxIter nIter slope x y =
     (if nIter < maxIter
      then (case lstsq_origin L x y of
              Inl e \<Rightarrow> Inl e
            | Inr slope1 \<Rightarrow>
                (let res = map2 (\<lambda>yi xi. yi - slope1 * xi) y x
                 in case meanclip L nSigmaClip res of
                      Inl e \<Rightarrow> Inl e
                    | Inr resMean \<Rightarrow>
                        (case varclip L nSigmaClip res of
                           Inl e \<Rightarrow> Inl e
                         | Inr v \<Rightarrow>
                             (let index = outliers nSigmaClip resMean (sqrt v) res
                              in if res = [] then Inl ValueError
                                 else if reg_stop index (nIter + 1) maxIter then Inr (Some slope1)
                                 else reg_fixed L nSigmaClip maxIter (nIter + 1) (Some slope1)
                                        (np_delete x index) (np_delete y index)))))
      else Inr slope)"
  by pat_completeness auto
termination
  by (relation "measure (\<lambda>(L, nSigmaClip, maxIter, nIter, slope, x, y). nat (maxIter - nIter))")
    auto

text \<open>The loop with a free intercept.\<close>

function reg_free ::
  "lib \<Rightarrow> real \<Rightarrow> int \<Rightarrow> int \<Rightarrow> (real \<times> real) option \<Rightarrow> real list \<Rightarrow> real list
     \<Rightarrow> error + (real \<times> real) option" where
  "reg_free L nSigmaClip maxIter nIter fit x y =
     (if nIter < maxIter
      then (case lstsq_line L x y of
              Inl e \<Rightarrow> Inl e
            | Inr (slope1, intercept1) \<Rightarrow>
                (let res = map2 (\<lambda>yi xi. yi - slope1 * xi - intercept1) y x
                 in case meanclip L nSigmaClip res of
                      Inl e \<Rightarrow> Inl e
                    | Inr resMean \<Rightarrow>
                        (case varclip L nSigmaClip res of
                           Inl e \<Rightarrow> Inl e
                         | Inr v \<Rightarrow>
                             (let index = outliers nSigmaClip resMean (sqrt v) res
                              in if res = [] then Inl ValueError
                                 else if reg_stop index (nIter + 1) maxIter
                                 then Inr (Some (slope1, intercept1))
                                 else reg_free L nSigmaClip maxIter (nIter + 1)
                                        (Some (slope1, intercept1))
                                        (np_delete x index) (np_delete y index)))))
      else Inr fit)"
  by pat_completeness auto
termination
  by (relation "measure (\<lambda>(L, nSigmaClip, maxIter, nIter, fit, x, y). nat (maxIter - nIter))")
    auto

text \<open>
  \<open>_iterativeRegression\<close>. An argument that is \<open>None\<close> or zero is replaced by the
  configured value. A loop that never ran leaves \<open>slope\<close> unbound, and the
  \<open>return\<close> raises \<open>NameError\<close>.
\<close>

definition iterativeRegression ::
  "lib \<Rightarrow> config \<Rightarrow> real list \<Rightarrow> real list \<Rightarrow> bool \<Rightarrow> real option \<Rightarrow> int option
     \<Rightarrow> error + real \<times> real" where
  "iterativeRegression L cfg x y fixThroughOrigin nSigmaClip maxIter =
     (let maxIter1 = (case maxIter of None \<Rightarrow> maxIterRegression cfg
                       | Some m \<Rightarrow> if m = 0 then maxIterRegression cfg else m);
          nSigmaClip1 = (case nSigmaClip of None \<Rightarrow> nSigmaClipRegression cfg
                          | Some n \<Rightarrow> if n = 0 then nSigmaClipRegression cfg else n)
      in if fixThroughOrigin
         then (case reg_fixed L nSigmaClip1 maxIter1 0 None x y of
                 Inl e \<Rightarrow> Inl e
               | Inr None \<Rightarrow> Inl NameError
               | Inr (Some slope) \<Rightarrow> Inr (slope, 0))
         else (case reg_free L nSigmaClip1 maxIter1 0 None x y of
                 Inl e \<Rightarrow> Inl e
               | Inr None \<Rightarrow> Inl NameError
               | Inr (Some fit) \<Rightarrow> Inr fit))"

subsection \<open>\<open>estimateGains\<close>\<close>

text \<open>
  What \<open>_calcMeansAndVars\<close> returns for a visit pair: three dictionaries keyed by the
  names of the amplifiers of the detector. \<open>estimateGains\<close> takes
  \<open>_calcMeansAndVars\<close> by its result for each visit pair.
\<close>

record measurement =
  means_of :: "string \<Rightarrow> real"
  vars_of :: "string \<Rightarrow> real"
  covars_of :: "string \<Rightarrow> real"

datatype eg_warning = SanityCheckFailed nat | DroppedValue

text \<open>The three dictionaries of lists the loop fills, and the warnings logged.\<close>

record ptc_acc =
  ampMeans :: "string \<Rightarrow> real list"
  ampVariances :: "string \<Rightarrow> real list"
  ampCoVariances :: "string \<Rightarrow> real list"
  eg_log :: "eg_warning list"

text \<open>
  The test of the sanity loop for one amplifier:
  \<open>_means[ampName]*10 < _vars[ampName] or _means[ampName]*10 < _covars[ampName]\<close>.
\<close>

definition sanity_failed :: "measurement \<Rightarrow> string \<Rightarrow> bool" where
  "sanity_failed m ampName =
     (means_of m ampName * 10 < vars_of m ampName \<or> means_of m ampName * 10 < covars_of m ampName)"

text \<open>
  The test of the second loop:
  \<open>_vars[k]*1.3 < _covars[k] or _vars[k]*0.7 > _covars[k]\<close>.
\<close>

definition value_dropped :: "measurement \<Rightarrow> string \<Rightarrow> bool" where
  "value_dropped m k =
     (vars_of m k * (13 / 10) < covars_of m k \<or> vars_of m k * (7 / 10) > covars_of m k)"

definition eg_value :: "measurement \<Rightarrow> string \<Rightarrow> ptc_acc \<Rightarrow> ptc_acc" where
  "eg_value m k acc =
     (if value_dropped m k then acc\<lparr> eg_log := eg_log acc @ [DroppedValue] \<rparr>
      else acc\<lparr> ampMeans := (ampMeans acc)(k := ampMeans acc k @ [means_of m k]),
                ampVariances := (ampVariances acc)(k := ampVariances acc k @ [vars_of m k]),
                ampCoVariances := (ampCoVariances acc)(k := ampCoVariances acc k @ [covars_of m k]) \<rparr>)"

text \<open>
  The body of the loop over the visit pairs, for the pair number \<open>visPairNum\<close>:
  \<open>breaker\<close> counts the amplifiers that fail the sanity test, one warning each, and a
  non-zero \<open>breaker\<close> makes the loop \<open>continue\<close> with the next pair.
\<close>

definition eg_pair :: "string list \<Rightarrow> nat \<Rightarrow> measurement \<Rightarrow> ptc_acc \<Rightarrow> ptc_acc" where
  "eg_pair ampNames visPairNum m acc =
     (let failing = filter (sanity_failed m) ampNames;
          breaker = length failing;
          acc1 = acc\<lparr> eg_log := eg_log acc @ map (\<lambda>_. SanityCheckFailed visPairNum) failing \<rparr>
      in if breaker \<noteq> 0 then acc1 else fold (eg_value m) ampNames acc1)"






section \<open>Auxiliary notions of the proofs\<close>

text \<open>The distance of an index from the centre.\<close>

definition dist_c :: "nat \<Rightarrow> nat \<Rightarrow> nat" where
  "dist_c len r = (if len \<le> r then r - len else len - r)"

text \<open>The shape \<open>n \<times> n\<close>, by index.\<close>

definition dims :: "nat \<Rightarrow> array2 \<Rightarrow> bool" where
  "dims n A = (length A = n \<and> (\<forall>r < n. length (A ! r) = n))"


text \<open>
  The relaxation factor at the start of half-sweep \<open>k\<close>; the state after \<open>k\<close>
  half-sweeps none of which ended the loop; and the test that half-sweep \<open>k\<close> ends it.
\<close>

primrec omega_seq :: "real \<Rightarrow> nat \<Rightarrow> real" where
  "omega_seq rhoSpe 0 = 1"
| "omega_seq rhoSpe (Suc k) = next_omega rhoSpe k (omega_seq rhoSpe k)"

primrec sor_iter :: "array2 \<Rightarrow> real \<Rightarrow> sor_state \<Rightarrow> nat \<Rightarrow> sor_state" where
  "sor_iter source rhoSpe s0 0 = s0"
| "sor_iter source rhoSpe s0 (Suc k) =
     advance rhoSpe k (half_sweep source k (sor_iter source rhoSpe s0 k))"

definition stops :: "array2 \<Rightarrow> real \<Rightarrow> real \<Rightarrow> real \<Rightarrow> sor_state \<Rightarrow> nat \<Rightarrow> bool" where
  "stops source rhoSpe inError eLevel s0 k =
     converged inError eLevel (half_sweep source k (sor_iter source rhoSpe s0 k))"

text \<open>A state of zeros on the grid of a source of side \<open>n\<close>.\<close>

definition zero_state :: "nat \<Rightarrow> sor_state \<Rightarrow> bool" where
  "zero_state n s = (func s = zeros (n + 2) (n + 2) \<and> resid s = zeros (n + 2) (n + 2))"

section \<open>Verification\<close>

subsection \<open>Arrays\<close>

lemma square_of_dims: "square_of n A = dims n A"
  by (auto simp: square_of_def dims_def list_all_length)

lemma set2_dims: "dims n A \<Longrightarrow> dims n (set2 A i j v)"
  by (cases "i < length A") (auto simp: dims_def set2_def nth_list_update)

lemma set2_nth:
  "dims n A \<Longrightarrow> r < n \<Longrightarrow> c < n \<Longrightarrow>
   set2 A i j v ! r ! c = (if r = i \<and> c = j then v else A ! r ! c)"
  by (cases "i < length A") (auto simp: dims_def set2_def nth_list_update)

lemma dims_zeros: "dims n (zeros n n)"
  by (simp add: dims_def zeros_def)

subsection \<open>Tiling\<close>

lemma tile_body_dims: "dims n A \<Longrightarrow> dims n (tile_body Q len i j A)"
  by (simp add: tile_body_def Let_def set2_dims)

lemma tile_body_nth:
  assumes "dims (2 * len + 1) A" "i \<le> len" "j \<le> len" "r < 2 * len + 1" "c < 2 * len + 1"
  shows "tile_body Q len i j A ! r ! c =
     (if dist_c len r = i \<and> dist_c len c = j then Q ! i ! j else A ! r ! c)"
proof -
  let ?n = "2 * len + 1" and ?v = "Q ! i ! j"
  have d1: "dims ?n (set2 A (i + len) (j + len) ?v)"
    using assms(1) by (rule set2_dims)
  have d2: "dims ?n (set2 (set2 A (i + len) (j + len) ?v) (len - i) (j + len) ?v)"
    using d1 by (rule set2_dims)
  have d3: "dims ?n (set2 (set2 (set2 A (i + len) (j + len) ?v) (len - i) (j + len) ?v)
      (i + len) (len - j) ?v)"
    using d2 by (rule set2_dims)
  show ?thesis
    unfolding tile_body_def Let_def
    using assms(2-5)
    by (simp add: set2_nth[OF d3] set2_nth[OF d2] set2_nth[OF d1] set2_nth[OF assms(1)]
        dist_c_def) auto
qed

lemma tile_row_dims: "dims n A \<Longrightarrow> dims n (fold (\<lambda>j out'. tile_body Q len i j out') js A)"
  by (induction js arbitrary: A) (auto simp: tile_body_dims)

lemma tile_row_nth:
  assumes "dims (2 * len + 1) A" "i \<le> len" "\<forall>j\<in>set js. j \<le> len"
    "r < 2 * len + 1" "c < 2 * len + 1"
  shows "fold (\<lambda>j out'. tile_body Q len i j out') js A ! r ! c =
     (if dist_c len r = i \<and> dist_c len c \<in> set js then Q ! i ! dist_c len c else A ! r ! c)"
  using assms
proof (induction js arbitrary: A)
  case Nil
  then show ?case by simp
next
  case (Cons j js)
  then show ?case by (auto simp: tile_body_dims tile_body_nth)
qed

lemma tile_rows_dims:
  "dims n A \<Longrightarrow>
   dims n (fold (\<lambda>i out. fold (\<lambda>j out'. tile_body Q len i j out') js out) is A)"
  by (induction "is" arbitrary: A) (auto simp: tile_row_dims)

lemma tile_rows_nth:
  assumes "dims (2 * len + 1) A" "\<forall>i\<in>set is. i \<le> len" "\<forall>j\<in>set js. j \<le> len"
    "r < 2 * len + 1" "c < 2 * len + 1"
  shows "fold (\<lambda>i out. fold (\<lambda>j out'. tile_body Q len i j out') js out) is A ! r ! c =
     (if dist_c len r \<in> set is \<and> dist_c len c \<in> set js
      then Q ! dist_c len r ! dist_c len c else A ! r ! c)"
  using assms
proof (induction "is" arbitrary: A)
  case Nil
  then show ?case by simp
next
  case (Cons i "is")
  then show ?case by (auto simp: tile_row_dims tile_row_nth)
qed

lemma tile_loops_nth:
  assumes "r < 2 * len + 1" "c < 2 * len + 1"
  shows "tile_loops Q len (zeros (2 * len + 1) (2 * len + 1)) ! r ! c
         = Q ! dist_c len r ! dist_c len c"
proof -
  have "dist_c len r \<le> len" "dist_c len c \<le> len"
    using assms by (auto simp: dist_c_def)
  then show ?thesis
    unfolding tile_loops_def
    using assms by (subst tile_rows_nth) (auto simp: dims_zeros)
qed

lemma tile_loops_dims:
  "dims (2 * len + 1) (tile_loops Q len (zeros (2 * len + 1) (2 * len + 1)))"
  unfolding tile_loops_def by (rule tile_rows_dims) (rule dims_zeros)

lemma tileArray_square:
  assumes "square_of n Q" "0 < n"
  shows "tileArray Q = Inr (tile_loops Q (n - 1) (zeros (2 * (n - 1) + 1) (2 * (n - 1) + 1)))"
  using assms by (cases Q) (auto simp: tileArray_def square_of_def nrows_def ncols_def Let_def)

lemma tileArray_entries:
  assumes "square_of n Q" "0 < n"
  shows "\<exists>T. tileArray Q = Inr T \<and> dims (2 * n - 1) T
    \<and> (\<forall>r c. r < 2 * n - 1 \<longrightarrow> c < 2 * n - 1 \<longrightarrow>
          T ! r ! c = Q ! dist_c (n - 1) r ! dist_c (n - 1) c)"
proof -
  let ?T = "tile_loops Q (n - 1) (zeros (2 * (n - 1) + 1) (2 * (n - 1) + 1))"
  have eq: "2 * (n - 1) + 1 = 2 * n - 1" using assms(2) by simp
  have "tileArray Q = Inr ?T" using assms by (rule tileArray_square)
  moreover have "dims (2 * n - 1) ?T" using tile_loops_dims[of "n - 1" Q] by (simp only: eq)
  moreover have "?T ! r ! c = Q ! dist_c (n - 1) r ! dist_c (n - 1) c"
    if "r < 2 * n - 1" "c < 2 * n - 1" for r c
    using tile_loops_nth[of r "n - 1" c Q] that by (simp only: eq)
  ultimately show ?thesis by blast
qed

text \<open>
  C7. For a square quarter array \<open>Q\<close> of side \<open>n \<ge> 1\<close>, \<open>_tileArray\<close> returns an
  array of side \<open>2n - 1\<close> with centre index \<open>n - 1\<close>; the value \<open>Q[i, j]\<close> stands at
  the four positions (centre \<plusminus> i, centre \<plusminus> j); the result is equal to its
  reflections about its centre row and its centre column; and its centre entry is
  \<open>Q[0, 0]\<close>.
\<close>

theorem tileArray_tiles_symmetric:
  assumes "square_of n Q" and "0 < n"
  shows "\<exists>T. tileArray Q = Inr T \<and> square_of (2 * n - 1) T
    \<and> (\<forall>i<n. \<forall>j<n.
          T ! (n - 1 + i) ! (n - 1 + j) = Q ! i ! j \<and> T ! (n - 1 - i) ! (n - 1 + j) = Q ! i ! j
        \<and> T ! (n - 1 + i) ! (n - 1 - j) = Q ! i ! j \<and> T ! (n - 1 - i) ! (n - 1 - j) = Q ! i ! j)
    \<and> (\<forall>r<2 * n - 1. \<forall>c<2 * n - 1.
          T ! (2 * (n - 1) - r) ! c = T ! r ! c \<and> T ! r ! (2 * (n - 1) - c) = T ! r ! c)
    \<and> T ! (n - 1) ! (n - 1) = Q ! 0 ! 0"
proof -
  from tileArray_entries[OF assms]
  obtain T where T: "tileArray Q = Inr T" "dims (2 * n - 1) T"
    and ent: "\<And>r c. r < 2 * n - 1 \<Longrightarrow> c < 2 * n - 1 \<Longrightarrow>
       T ! r ! c = Q ! dist_c (n - 1) r ! dist_c (n - 1) c"
    by blast
  have four: "T ! (n - 1 + i) ! (n - 1 + j) = Q ! i ! j \<and> T ! (n - 1 - i) ! (n - 1 + j) = Q ! i ! j
        \<and> T ! (n - 1 + i) ! (n - 1 - j) = Q ! i ! j \<and> T ! (n - 1 - i) ! (n - 1 - j) = Q ! i ! j"
    if "i < n" "j < n" for i j
  proof -
    have b: "n - 1 + i < 2 * n - 1" "n - 1 - i < 2 * n - 1"
      "n - 1 + j < 2 * n - 1" "n - 1 - j < 2 * n - 1"
      using that assms(2) by auto
    have d: "dist_c (n - 1) (n - 1 + i) = i" "dist_c (n - 1) (n - 1 - i) = i"
      "dist_c (n - 1) (n - 1 + j) = j" "dist_c (n - 1) (n - 1 - j) = j"
      using that by (auto simp: dist_c_def)
    show ?thesis using b d by (simp add: ent)
  qed
  have refl: "T ! (2 * (n - 1) - r) ! c = T ! r ! c \<and> T ! r ! (2 * (n - 1) - c) = T ! r ! c"
    if "r < 2 * n - 1" "c < 2 * n - 1" for r c
  proof -
    have b: "2 * (n - 1) - r < 2 * n - 1" "2 * (n - 1) - c < 2 * n - 1"
      using that by auto
    have d: "dist_c (n - 1) (2 * (n - 1) - r) = dist_c (n - 1) r"
      "dist_c (n - 1) (2 * (n - 1) - c) = dist_c (n - 1) c"
      using that by (auto simp: dist_c_def)
    show ?thesis using b d that by (simp add: ent)
  qed
  have centre: "T ! (n - 1) ! (n - 1) = Q ! 0 ! 0"
    using four[of 0 0] assms(2) by simp
  show ?thesis
    using T four refl centre by (auto simp: square_of_dims)
qed

theorem tileArray_tiles_symmetric_witness:
  "square_of 2 [[1, 2], [3, 4]] \<and> (0::nat) < 2
   \<and> (\<exists>T. tileArray [[1, 2], [3, 4]] = Inr T \<and> square_of (2 * 2 - 1) T
    \<and> (\<forall>i<2. \<forall>j<2.
          T ! (2 - 1 + i) ! (2 - 1 + j) = [[1, 2], [3, 4]] ! i ! j
        \<and> T ! (2 - 1 - i) ! (2 - 1 + j) = [[1, 2], [3, 4]] ! i ! j
        \<and> T ! (2 - 1 + i) ! (2 - 1 - j) = [[1, 2], [3, 4]] ! i ! j
        \<and> T ! (2 - 1 - i) ! (2 - 1 - j) = [[1, 2], [3, 4]] ! i ! j)
    \<and> (\<forall>r<2 * 2 - 1. \<forall>c<2 * 2 - 1.
          T ! (2 * (2 - 1) - r) ! c = T ! r ! c \<and> T ! r ! (2 * (2 - 1) - c) = T ! r ! c)
    \<and> T ! (2 - 1) ! (2 - 1) = [[1, 2], [3, 4]] ! 0 ! 0)"
proof -
  have sq: "square_of 2 [[1, 2], [3, 4]]" by (simp add: square_of_def)
  have pos: "(0::nat) < 2" by simp
  show ?thesis using sq pos tileArray_tiles_symmetric[OF sq pos] by blast
qed

subsection \<open>Kernel generation: the loop over the samples\<close>

lemma square_of_nonempty: "square_of n A \<Longrightarrow> 0 < n \<Longrightarrow> nrows A \<noteq> 0 \<and> ncols A \<noteq> 0"
  by (cases A) (auto simp: square_of_def nrows_def ncols_def)

lemma square_of_set2: "square_of n A \<Longrightarrow> square_of n (set2 A i j v)"
  by (simp add: square_of_dims set2_dims)

lemma square_of_normalize: "square_of n A \<Longrightarrow> square_of n (normalize m1 m2 A)"
  by (auto simp: square_of_def normalize_def list_all_iff)

lemma set2_00: "square_of n A \<Longrightarrow> 0 < n \<Longrightarrow> set2 A 0 0 v ! 0 ! 0 = v"
  by (simp add: square_of_dims set2_nth)

lemma normalize_nth:
  "square_of n A \<Longrightarrow> i < n \<Longrightarrow> j < n \<Longrightarrow>
   normalize m1 m2 A ! i ! j = A ! i ! j / (- (m1\<^sup>2 + m2\<^sup>2))"
  by (simp add: square_of_dims dims_def normalize_def)

lemma gk_sample_skip:
  assumes "square_of n (st a)" "0 < n" "0 < st a ! 0 ! 0 - (mean1 + mean2)"
  shows "gk_sample rl k ((mean1, mean2), a) st acc =
     (st(a := set2 (st a) 0 0 (st a ! 0 ! 0 - (mean1 + mean2))),
      Inr (acc\<lparr> warnings := warnings acc @ [SkippedItem k] \<rparr>))"
  using assms square_of_nonempty[OF assms(1,2)]
  by (simp add: gk_sample_def Let_def set2_00)

lemma gk_sample_keep:
  assumes "square_of n (st a)" "0 < n" "st a ! 0 ! 0 - (mean1 + mean2) \<le> 0"
  shows "\<exists>full. tileArray (normalize mean1 mean2 (set2 (st a) 0 0 (st a ! 0 ! 0 - (mean1 + mean2)))) = Inr full
     \<and> gk_sample rl k ((mean1, mean2), a) st acc =
     (st(a := normalize mean1 mean2 (set2 (st a) 0 0 (st a ! 0 ! 0 - (mean1 + mean2)))),
      Inr (if xcorr_rejected rl full
           then acc\<lparr> fullCorr := Some full, warnings := warnings acc @ [SumTooHigh k] \<rparr>
           else acc\<lparr> xcorrList := xcorrList acc @ [full], fullCorr := Some full \<rparr>))"
proof -
  let ?A = "normalize mean1 mean2 (set2 (st a) 0 0 (st a ! 0 ! 0 - (mean1 + mean2)))"
  have sq: "square_of n ?A" using assms(1) by (simp add: square_of_set2 square_of_normalize)
  from tileArray_square[OF sq assms(2)] obtain full where f: "tileArray ?A = Inr full" by blast
  show ?thesis
    using assms square_of_nonempty[OF assms(1,2)] f
    by (simp add: gk_sample_def Let_def set2_00)
qed




text \<open>
  C2, as amended. For a sample with a square array of side \<open>n \<ge> 1\<close>, the sum
  \<open>mean1 + mean2\<close> is subtracted from the entry \<open>[0, 0]\<close>. The sample is skipped, with
  a warning and without an error, when the corrected entry is strictly positive. Otherwise,
  so also when the corrected entry is zero, every entry of the array is divided by
  \<open>-(mean1\<^sup>2 + mean2\<^sup>2)\<close> and the array divided so is the one that is tiled; the
  tiled array joins the list unless the sum-ratio test rejects it.
\<close>

theorem gk_sample_sign_test_and_normalization:
  assumes "square_of n (st a)" and "0 < n"
  shows "(0 < st a ! 0 ! 0 - (mean1 + mean2) \<longrightarrow>
       gk_sample rl k ((mean1, mean2), a) st acc =
         (st(a := set2 (st a) 0 0 (st a ! 0 ! 0 - (mean1 + mean2))),
          Inr (acc\<lparr> warnings := warnings acc @ [SkippedItem k] \<rparr>)))
   \<and> (st a ! 0 ! 0 - (mean1 + mean2) \<le> 0 \<and> mean1\<^sup>2 + mean2\<^sup>2 \<noteq> 0 \<longrightarrow>
       (\<exists>corr full.
          corr = normalize mean1 mean2 (set2 (st a) 0 0 (st a ! 0 ! 0 - (mean1 + mean2)))
        \<and> (\<forall>i<n. \<forall>j<n. corr ! i ! j =
              (if i = 0 \<and> j = 0 then st a ! 0 ! 0 - (mean1 + mean2) else st a ! i ! j)
              / (- (mean1\<^sup>2 + mean2\<^sup>2)))
        \<and> tileArray corr = Inr full
        \<and> gk_sample rl k ((mean1, mean2), a) st acc =
            (st(a := corr),
             Inr (if xcorr_rejected rl full
                  then acc\<lparr> fullCorr := Some full, warnings := warnings acc @ [SumTooHigh k] \<rparr>
                  else acc\<lparr> xcorrList := xcorrList acc @ [full], fullCorr := Some full \<rparr>))))"
proof (intro conjI impI)
  assume "0 < st a ! 0 ! 0 - (mean1 + mean2)"
  with assms show "gk_sample rl k ((mean1, mean2), a) st acc =
         (st(a := set2 (st a) 0 0 (st a ! 0 ! 0 - (mean1 + mean2))),
          Inr (acc\<lparr> warnings := warnings acc @ [SkippedItem k] \<rparr>))"
    using gk_sample_skip[where st=st and a=a and n=n] by blast
next
  let ?c = "st a ! 0 ! 0 - (mean1 + mean2)"
  let ?corr = "normalize mean1 mean2 (set2 (st a) 0 0 ?c)"
  assume "?c \<le> 0 \<and> mean1\<^sup>2 + mean2\<^sup>2 \<noteq> 0"
  then have le: "?c \<le> 0" by simp
  from gk_sample_keep[where st=st and a=a and n=n and ?mean1.0=mean1 and ?mean2.0=mean2
      and rl=rl and k=k and acc=acc] assms le
  obtain full where f: "tileArray ?corr = Inr full"
    "gk_sample rl k ((mean1, mean2), a) st acc =
            (st(a := ?corr),
             Inr (if xcorr_rejected rl full
                  then acc\<lparr> fullCorr := Some full, warnings := warnings acc @ [SumTooHigh k] \<rparr>
                  else acc\<lparr> xcorrList := xcorrList acc @ [full], fullCorr := Some full \<rparr>))"
    by blast
  have ent: "?corr ! i ! j = (if i = 0 \<and> j = 0 then ?c else st a ! i ! j) / (- (mean1\<^sup>2 + mean2\<^sup>2))"
    if "i < n" "j < n" for i j
    using that assms(1)
    by (simp add: normalize_nth[OF square_of_set2[OF assms(1)]] set2_nth[OF iffD1[OF square_of_dims assms(1)]])
  show "\<exists>corr full.
          corr = ?corr
        \<and> (\<forall>i<n. \<forall>j<n. corr ! i ! j =
              (if i = 0 \<and> j = 0 then ?c else st a ! i ! j) / (- (mean1\<^sup>2 + mean2\<^sup>2)))
        \<and> tileArray corr = Inr full
        \<and> gk_sample rl k ((mean1, mean2), a) st acc =
            (st(a := corr),
             Inr (if xcorr_rejected rl full
                  then acc\<lparr> fullCorr := Some full, warnings := warnings acc @ [SumTooHigh k] \<rparr>
                  else acc\<lparr> xcorrList := xcorrList acc @ [full], fullCorr := Some full \<rparr>))"
    using f ent by blast
qed

theorem gk_sample_sign_test_and_normalization_witness:
  "square_of 1 ((\<lambda>_. [[5]]) (0::nat)) \<and> (0::nat) < 1
   \<and> gk_sample 1 0 ((1, 1), 0) (\<lambda>_. [[5]]) \<lparr> xcorrList = [], fullCorr = None, warnings = [] \<rparr>
       = ((\<lambda>_. [[5]])(0 := [[3]]),
          Inr \<lparr> xcorrList = [], fullCorr = None, warnings = [SkippedItem 0] \<rparr>)
   \<and> square_of 1 ((\<lambda>_. [[1]]) (0::nat))
   \<and> gk_sample 1 0 ((1, 1), 0) (\<lambda>_. [[1]]) \<lparr> xcorrList = [], fullCorr = None, warnings = [] \<rparr>
       = ((\<lambda>_. [[1]])(0 := [[1 / 2]]),
          Inr \<lparr> xcorrList = [[[1 / 2]]], fullCorr = Some [[1 / 2]], warnings = [] \<rparr>)"
proof -
  let ?acc = "\<lparr> xcorrList = [], fullCorr = None, warnings = [] \<rparr>"
  have sq5: "square_of 1 ((\<lambda>_. [[5]]) (0::nat))" and sq1: "square_of 1 ((\<lambda>_. [[1]]) (0::nat))"
    by (simp_all add: square_of_def)
  have pos: "(0::nat) < 1" by simp
  have a: "gk_sample 1 0 ((1, 1), 0) (\<lambda>_. [[5]]) ?acc
       = ((\<lambda>_. [[5]])(0 := [[3]]), Inr \<lparr> xcorrList = [], fullCorr = None, warnings = [SkippedItem 0] \<rparr>)"
    using gk_sample_sign_test_and_normalization[where st="\<lambda>_. [[5]]" and a=0 and n=1
        and ?mean1.0=1 and ?mean2.0=1 and rl=1 and k=0 and acc="?acc", OF sq5 pos]
    by (simp add: set2_def)
  have b: "gk_sample 1 0 ((1, 1), 0) (\<lambda>_. [[1]]) ?acc
       = ((\<lambda>_. [[1]])(0 := [[1 / 2]]),
          Inr \<lparr> xcorrList = [[[1 / 2]]], fullCorr = Some [[1 / 2]], warnings = [] \<rparr>)"
    using gk_sample_sign_test_and_normalization[where st="\<lambda>_. [[1]]" and a=0 and n=1
        and ?mean1.0=1 and ?mean2.0=1 and rl=1 and k=0 and acc="?acc", OF sq1 pos]
    by (simp add: gk_sample_def set2_def normalize_def tileArray_def nrows_def ncols_def
        tile_loops_def tile_body_def zeros_def xcorr_rejected_def sum2_def sumabs2_def Let_def)
  show ?thesis using sq5 sq1 pos a b by blast
qed



text \<open>
  C2 as stated fails: a sample whose corrected entry \<open>[0, 0]\<close> is zero is not rejected.
  With the means \<open>(1, 1)\<close> and the array \<open>[[2, 1], [1, 1]]\<close> the corrected entry is
  \<open>0\<close>; the array is normalized and tiled, no warning is logged and the tiled array is
  appended to the list.
\<close>

theorem gk_sample_zero_retained:
  "[[2, 1], [1, 1]] ! 0 ! 0 - (1 + 1) = (0::real)
   \<and> fst (gk_sample 1 0 ((1, 1), 0) (\<lambda>_. [[2, 1], [1, 1]])
        \<lparr> xcorrList = [], fullCorr = None, warnings = [] \<rparr>) 0
       = [[0, - (1 / 2)], [- (1 / 2), - (1 / 2)]]
   \<and> snd (gk_sample 1 0 ((1, 1), 0) (\<lambda>_. [[2, 1], [1, 1]])
        \<lparr> xcorrList = [], fullCorr = None, warnings = [] \<rparr>)
     = Inr \<lparr> xcorrList = [[[- (1 / 2), - (1 / 2), - (1 / 2)], [- (1 / 2), 0, - (1 / 2)],
                              [- (1 / 2), - (1 / 2), - (1 / 2)]]],
              fullCorr = Some [[- (1 / 2), - (1 / 2), - (1 / 2)], [- (1 / 2), 0, - (1 / 2)],
                               [- (1 / 2), - (1 / 2), - (1 / 2)]],
              warnings = [] \<rparr>"
  by code_simp

subsection \<open>Kernel generation: the arrays of the caller\<close>








subsection \<open>Gain estimation: the loop over the visit pairs\<close>

lemma eg_pair_fail:
  assumes "\<exists>a\<in>set ampNames. sanity_failed m a"
  shows "eg_pair ampNames n m acc =
     acc\<lparr> eg_log := eg_log acc @ map (\<lambda>_. SanityCheckFailed n) (filter (sanity_failed m) ampNames) \<rparr>"
  using assms by (auto simp: eg_pair_def Let_def filter_empty_conv)

lemma eg_value_other:
  "k \<noteq> a \<Longrightarrow> ampMeans (eg_value m k acc) a = ampMeans acc a
     \<and> ampVariances (eg_value m k acc) a = ampVariances acc a
     \<and> ampCoVariances (eg_value m k acc) a = ampCoVariances acc a"
  by (simp add: eg_value_def)

lemma fold_eg_value_other:
  "a \<notin> set ks \<Longrightarrow> ampMeans (fold (eg_value m) ks acc) a = ampMeans acc a
     \<and> ampVariances (fold (eg_value m) ks acc) a = ampVariances acc a
     \<and> ampCoVariances (fold (eg_value m) ks acc) a = ampCoVariances acc a"
  by (induction ks arbitrary: acc) (auto simp: eg_value_other)

lemma fold_eg_value_amp:
  assumes "distinct ks" "a \<in> set ks"
  shows "ampMeans (fold (eg_value m) ks acc) a
           = (if value_dropped m a then ampMeans acc a else ampMeans acc a @ [means_of m a])
     \<and> ampVariances (fold (eg_value m) ks acc) a
           = (if value_dropped m a then ampVariances acc a else ampVariances acc a @ [vars_of m a])
     \<and> ampCoVariances (fold (eg_value m) ks acc) a
           = (if value_dropped m a then ampCoVariances acc a else ampCoVariances acc a @ [covars_of m a])"
  using assms
proof (induction ks arbitrary: acc)
  case Nil
  then show ?case by simp
next
  case (Cons k ks)
  show ?case
  proof (cases "k = a")
    case True
    then have "a \<notin> set ks" using Cons.prems(1) by simp
    then show ?thesis using True
      by (simp add: fold_eg_value_other) (simp add: eg_value_def)
  next
    case False
    then have "a \<in> set ks" "distinct ks" using Cons.prems by auto
    from Cons.IH[OF this(2,1)] False show ?thesis
      by (simp add: eg_value_other)
  qed
qed

lemma eg_pair_pass:
  assumes "\<forall>a\<in>set ampNames. \<not> sanity_failed m a"
  shows "eg_pair ampNames n m acc = fold (eg_value m) ampNames acc"
proof -
  have "filter (sanity_failed m) ampNames = []" using assms by (simp add: filter_empty_conv)
  then show ?thesis by (simp add: eg_pair_def Let_def)
qed

text \<open>
  C3, as amended. The sanity test decides for the visit pair as a whole. When some region of
  the detector has \<open>mean*10 < variance\<close> or \<open>mean*10 < covariance\<close>, the pair adds
  no sample to any region, one warning is logged for each failing region and the loop goes
  on with the next pair. When no region fails, the sample of a region is appended to the
  lists of that region unless its covariance is more than 30 percent away from its variance.
\<close>

theorem eg_pair_sanity_check:
  assumes "distinct ampNames" and "a \<in> set ampNames"
  shows "((\<exists>b\<in>set ampNames. sanity_failed m b) \<longrightarrow>
            ampMeans (eg_pair ampNames n m acc) a = ampMeans acc a
          \<and> ampVariances (eg_pair ampNames n m acc) a = ampVariances acc a
          \<and> ampCoVariances (eg_pair ampNames n m acc) a = ampCoVariances acc a
          \<and> eg_log (eg_pair ampNames n m acc)
              = eg_log acc @ map (\<lambda>_. SanityCheckFailed n) (filter (sanity_failed m) ampNames))
       \<and> ((\<forall>b\<in>set ampNames. \<not> sanity_failed m b) \<and> \<not> value_dropped m a \<longrightarrow>
            ampMeans (eg_pair ampNames n m acc) a = ampMeans acc a @ [means_of m a]
          \<and> ampVariances (eg_pair ampNames n m acc) a = ampVariances acc a @ [vars_of m a]
          \<and> ampCoVariances (eg_pair ampNames n m acc) a = ampCoVariances acc a @ [covars_of m a])"
proof (intro conjI impI)
  assume f: "\<exists>b\<in>set ampNames. sanity_failed m b"
  show "ampMeans (eg_pair ampNames n m acc) a = ampMeans acc a"
    "ampVariances (eg_pair ampNames n m acc) a = ampVariances acc a"
    "ampCoVariances (eg_pair ampNames n m acc) a = ampCoVariances acc a"
    "eg_log (eg_pair ampNames n m acc)
              = eg_log acc @ map (\<lambda>_. SanityCheckFailed n) (filter (sanity_failed m) ampNames)"
    by (simp_all add: eg_pair_fail[OF f])
next
  assume p: "(\<forall>b\<in>set ampNames. \<not> sanity_failed m b) \<and> \<not> value_dropped m a"
  then have e: "eg_pair ampNames n m acc = fold (eg_value m) ampNames acc"
    by (simp add: eg_pair_pass)
  from fold_eg_value_amp[OF assms, of m acc] p
  show "ampMeans (eg_pair ampNames n m acc) a = ampMeans acc a @ [means_of m a]"
    "ampVariances (eg_pair ampNames n m acc) a = ampVariances acc a @ [vars_of m a]"
    "ampCoVariances (eg_pair ampNames n m acc) a = ampCoVariances acc a @ [covars_of m a]"
    by (simp_all add: e)
qed


theorem eg_pair_sanity_check_witness:
  "distinct [''A'', ''B''] \<and> ''B'' \<in> set [''A'', ''B'']
   \<and> ampMeans (eg_pair [''A'', ''B''] 0
        \<lparr> means_of = (\<lambda>a. if a = ''A'' then 1 else 100),
          vars_of = (\<lambda>a. if a = ''A'' then 20 else 50),
          covars_of = (\<lambda>a. if a = ''A'' then 20 else 50) \<rparr>
        \<lparr> ampMeans = (\<lambda>_. []), ampVariances = (\<lambda>_. []), ampCoVariances = (\<lambda>_. []),
          eg_log = [] \<rparr>) ''B'' = []
   \<and> eg_log (eg_pair [''A'', ''B''] 0
        \<lparr> means_of = (\<lambda>a. if a = ''A'' then 1 else 100),
          vars_of = (\<lambda>a. if a = ''A'' then 20 else 50),
          covars_of = (\<lambda>a. if a = ''A'' then 20 else 50) \<rparr>
        \<lparr> ampMeans = (\<lambda>_. []), ampVariances = (\<lambda>_. []), ampCoVariances = (\<lambda>_. []),
          eg_log = [] \<rparr>) = [SanityCheckFailed 0]
   \<and> ampCoVariances (eg_pair [''A'', ''B''] 0
        \<lparr> means_of = (\<lambda>a. 100), vars_of = (\<lambda>a. 50), covars_of = (\<lambda>a. 51) \<rparr>
        \<lparr> ampMeans = (\<lambda>_. []), ampVariances = (\<lambda>_. []), ampCoVariances = (\<lambda>_. []),
          eg_log = [] \<rparr>) ''B'' = [51]"
proof -
  let ?acc = "\<lparr> ampMeans = (\<lambda>_. []), ampVariances = (\<lambda>_. []), ampCoVariances = (\<lambda>_. []),
          eg_log = [] \<rparr>"
  let ?m1 = "\<lparr> means_of = (\<lambda>a. if a = ''A'' then 1 else 100),
          vars_of = (\<lambda>a. if a = ''A'' then 20 else 50),
          covars_of = (\<lambda>a. if a = ''A'' then 20 else 50) \<rparr>"
  let ?m2 = "\<lparr> means_of = (\<lambda>a. 100), vars_of = (\<lambda>a. 50), covars_of = (\<lambda>a. 51) \<rparr>"
  have d: "distinct [''A'', ''B'']" by simp
  have b: "''B'' \<in> set [''A'', ''B'']" by simp
  have f: "\<exists>b\<in>set [''A'', ''B'']. sanity_failed ?m1 b"
    by (simp add: sanity_failed_def)
  have p: "(\<forall>b\<in>set [''A'', ''B'']. \<not> sanity_failed ?m2 b) \<and> \<not> value_dropped ?m2 ''B''"
    by (simp add: sanity_failed_def value_dropped_def)
  have r1: "ampMeans (eg_pair [''A'', ''B''] 0 ?m1 ?acc) ''B'' = []"
    "eg_log (eg_pair [''A'', ''B''] 0 ?m1 ?acc) = [SanityCheckFailed 0]"
    using eg_pair_sanity_check[OF d b, of ?m1 0 ?acc] f by (simp_all add: sanity_failed_def)
  have r2: "ampCoVariances (eg_pair [''A'', ''B''] 0 ?m2 ?acc) ''B'' = [51]"
    using eg_pair_sanity_check[OF d b, of ?m2 0 ?acc] p by simp
  show ?thesis using d b r1 r2 by blast
qed

text \<open>
  C3 as stated fails: the rejection is not confined to the failing region. With the regions
  \<open>A\<close> (mean 1, variance and covariance 20) and \<open>B\<close> (mean 100, variance and
  covariance 50), region \<open>B\<close> passes both tests, yet after the pair its lists are
  empty.
\<close>

theorem eg_pair_rejects_other_regions:
  "\<not> sanity_failed
        \<lparr> means_of = (\<lambda>a. if a = ''A'' then 1 else 100),
          vars_of = (\<lambda>a. if a = ''A'' then 20 else 50),
          covars_of = (\<lambda>a. if a = ''A'' then 20 else 50) \<rparr> ''B''
   \<and> \<not> value_dropped
        \<lparr> means_of = (\<lambda>a. if a = ''A'' then 1 else 100),
          vars_of = (\<lambda>a. if a = ''A'' then 20 else 50),
          covars_of = (\<lambda>a. if a = ''A'' then 20 else 50) \<rparr> ''B''
   \<and> ampMeans (eg_pair [''A'', ''B''] 0
        \<lparr> means_of = (\<lambda>a. if a = ''A'' then 1 else 100),
          vars_of = (\<lambda>a. if a = ''A'' then 20 else 50),
          covars_of = (\<lambda>a. if a = ''A'' then 20 else 50) \<rparr>
        \<lparr> ampMeans = (\<lambda>_. []), ampVariances = (\<lambda>_. []), ampCoVariances = (\<lambda>_. []),
          eg_log = [] \<rparr>) ''B'' = []
   \<and> ampCoVariances (eg_pair [''A'', ''B''] 0
        \<lparr> means_of = (\<lambda>a. if a = ''A'' then 1 else 100),
          vars_of = (\<lambda>a. if a = ''A'' then 20 else 50),
          covars_of = (\<lambda>a. if a = ''A'' then 20 else 50) \<rparr>
        \<lparr> ampMeans = (\<lambda>_. []), ampVariances = (\<lambda>_. []), ampCoVariances = (\<lambda>_. []),
          eg_log = [] \<rparr>) ''B'' = []"
  by (simp add: eg_pair_def sanity_failed_def value_dropped_def Let_def)

subsection \<open>Gain estimation: the gains\<close>











subsection \<open>The iterative regression\<close>

lemma outliers_single: "filter ((<) 0) (outliers ns rm sd [r]) = []"
  by (simp add: outliers_def)

lemma reg_fixed_single:
  assumes "0 < maxIter" "lstsq_origin L [x] [y] = Inr s"
    "meanclip L ns [y - s * x] = Inr rm" "varclip L ns [y - s * x] = Inr v"
  shows "reg_fixed L ns maxIter 0 None [x] [y] = Inr (Some s)"
  using assms by (simp add: reg_stop_def outliers_single Let_def)

lemma reg_free_single:
  assumes "0 < maxIter" "lstsq_line L [x] [y] = Inr (s, i)"
    "meanclip L ns [y - s * x - i] = Inr rm" "varclip L ns [y - s * x - i] = Inr v"
  shows "reg_free L ns maxIter 0 None [x] [y] = Inr (Some (s, i))"
  using assms by (simp add: reg_stop_def outliers_single Let_def)

lemma reg_fixed_empty:
  "0 < maxIter \<Longrightarrow> \<exists>e. reg_fixed L ns maxIter 0 None [] [] = Inl e"
  by (simp split: sum.splits)

lemma reg_free_empty:
  "0 < maxIter \<Longrightarrow> \<exists>e. reg_free L ns maxIter 0 None [] [] = Inl e"
  by (simp split: sum.splits prod.splits)

lemma reg_fixed_unbound:
  "\<not> 0 < maxIter \<Longrightarrow> reg_fixed L ns maxIter 0 None x y = Inr None"
  by simp

lemma reg_free_unbound:
  "\<not> 0 < maxIter \<Longrightarrow> reg_free L ns maxIter 0 None x y = Inr None"
  by simp

lemma iterativeRegression_empty:
  "\<exists>e. iterativeRegression L cfg [] [] fixThroughOrigin nSigmaClip maxIter = Inl e"
proof -
  let ?m = "case maxIter of None \<Rightarrow> maxIterRegression cfg
             | Some m \<Rightarrow> if m = 0 then maxIterRegression cfg else m"
  let ?n = "case nSigmaClip of None \<Rightarrow> nSigmaClipRegression cfg
             | Some n \<Rightarrow> if n = 0 then nSigmaClipRegression cfg else n"
  show ?thesis
  proof (cases "0 < ?m")
    case True
    from reg_fixed_empty[OF True, of L ?n] reg_free_empty[OF True, of L ?n]
    obtain e1 e2 where "reg_fixed L ?n ?m 0 None [] [] = Inl e1"
      "reg_free L ?n ?m 0 None [] [] = Inl e2" by blast
    then show ?thesis
      by (cases fixThroughOrigin) (simp_all add: iterativeRegression_def Let_def del: reg_fixed.simps reg_free.simps)
  next
    case False
    from reg_fixed_unbound[OF False, of L ?n "[]" "[]"] reg_free_unbound[OF False, of L ?n "[]" "[]"]
    show ?thesis
      by (cases fixThroughOrigin) (simp_all add: iterativeRegression_def Let_def del: reg_fixed.simps reg_free.simps)
  qed
qed

lemma reg_fixed_errors:
  "reg_fixed L ns maxIter nIter slope x y = Inl e \<Longrightarrow>
   e = ValueError \<or> (\<exists>xs ys. lstsq_origin L xs ys = Inl e)
     \<or> (\<exists>xs. meanclip L ns xs = Inl e \<or> varclip L ns xs = Inl e)"
proof (induction L ns maxIter nIter slope x y rule: reg_fixed.induct)
  case (1 L nSigmaClip maxIter nIter slope x y)
  show ?case
  proof (cases "nIter < maxIter")
    case False
    with "1.prems" show ?thesis by simp
  next
    case True
    show ?thesis
    proof (cases "lstsq_origin L x y")
      case (Inl e')
      with True "1.prems" show ?thesis by auto
    next
      case (Inr s)
      let ?res = "map2 (\<lambda>yi xi. yi - s * xi) y x"
      show ?thesis
      proof (cases "meanclip L nSigmaClip ?res")
        case (Inl e')
        with True Inr "1.prems" show ?thesis by auto
      next
        case rm: (Inr rm)
        show ?thesis
        proof (cases "varclip L nSigmaClip ?res")
          case (Inl e')
          with True Inr rm "1.prems" show ?thesis by auto
        next
          case v: (Inr v)
          let ?index = "outliers nSigmaClip rm (sqrt v) ?res"
          show ?thesis
          proof (cases "?res = []")
            case True': True
            with True Inr rm v "1.prems" show ?thesis by (simp add: Let_def)
          next
            case ne: False
            show ?thesis
            proof (cases "reg_stop ?index (nIter + 1) maxIter")
              case st: True
              with True Inr rm v ne "1.prems" show ?thesis by (simp add: Let_def)
            next
              case st: False
              with True Inr rm v ne "1.prems"
              have "reg_fixed L nSigmaClip maxIter (nIter + 1) (Some s)
                      (np_delete x ?index) (np_delete y ?index) = Inl e"
                by (simp add: Let_def)
              from "1.IH"[OF True Inr refl rm v refl ne st this] show ?thesis .
            qed
          qed
        qed
      qed
    qed
  qed
qed



lemma reg_free_errors:
  "reg_free L ns maxIter nIter fit x y = Inl e \<Longrightarrow>
   e = ValueError \<or> (\<exists>xs ys. lstsq_line L xs ys = Inl e)
     \<or> (\<exists>xs. meanclip L ns xs = Inl e \<or> varclip L ns xs = Inl e)"
proof (induction L ns maxIter nIter fit x y rule: reg_free.induct)
  case (1 L nSigmaClip maxIter nIter fit x y)
  show ?case
  proof (cases "nIter < maxIter")
    case False
    with "1.prems" show ?thesis by simp
  next
    case True
    show ?thesis
    proof (cases "lstsq_line L x y")
      case (Inl e')
      with True "1.prems" show ?thesis by auto
    next
      case (Inr si)
      obtain s i where si: "si = (s, i)" by (cases si)
      note Inr = Inr[unfolded si]
      let ?res = "map2 (\<lambda>yi xi. yi - s * xi - i) y x"
      show ?thesis
      proof (cases "meanclip L nSigmaClip ?res")
        case (Inl e')
        with True Inr "1.prems" show ?thesis by auto
      next
        case rm: (Inr rm)
        show ?thesis
        proof (cases "varclip L nSigmaClip ?res")
          case (Inl e')
          with True Inr rm "1.prems" show ?thesis by auto
        next
          case v: (Inr v)
          let ?index = "outliers nSigmaClip rm (sqrt v) ?res"
          show ?thesis
          proof (cases "?res = []")
            case True': True
            with True Inr rm v "1.prems" show ?thesis by (simp add: Let_def)
          next
            case ne: False
            show ?thesis
            proof (cases "reg_stop ?index (nIter + 1) maxIter")
              case st: True
              with True Inr rm v ne "1.prems" show ?thesis by (simp add: Let_def)
            next
              case st: False
              with True Inr rm v ne "1.prems"
              have "reg_free L nSigmaClip maxIter (nIter + 1) (Some (s, i))
                      (np_delete x ?index) (np_delete y ?index) = Inl e"
                by (simp add: Let_def)
              from "1.IH"[OF True Inr refl refl rm v refl ne st this] show ?thesis .
            qed
          qed
        qed
      qed
    qed
  qed
qed

lemma iterativeRegression_errors:
  assumes "iterativeRegression L cfg x y fixThroughOrigin nSigmaClip maxIter = Inl e"
  shows "e = NameError \<or> e = ValueError
     \<or> (\<exists>xs ys. lstsq_origin L xs ys = Inl e \<or> lstsq_line L xs ys = Inl e)
     \<or> (\<exists>n xs. meanclip L n xs = Inl e \<or> varclip L n xs = Inl e)"
proof -
  let ?m = "case maxIter of None \<Rightarrow> maxIterRegression cfg
             | Some m \<Rightarrow> if m = 0 then maxIterRegression cfg else m"
  let ?n = "case nSigmaClip of None \<Rightarrow> nSigmaClipRegression cfg
             | Some n \<Rightarrow> if n = 0 then nSigmaClipRegression cfg else n"
  show ?thesis
  proof (cases fixThroughOrigin)
    case True
    show ?thesis
    proof (cases "reg_fixed L ?n ?m 0 None x y")
      case (Inl e')
      with assms True have "e' = e"
        by (simp add: iterativeRegression_def Let_def del: reg_fixed.simps)
      with reg_fixed_errors[OF Inl] show ?thesis by blast
    next
      case (Inr r)
      with assms True show ?thesis
        by (cases r) (simp_all add: iterativeRegression_def Let_def del: reg_fixed.simps)
    qed
  next
    case False
    show ?thesis
    proof (cases "reg_free L ?n ?m 0 None x y")
      case (Inl e')
      with assms False have "e' = e"
        by (simp add: iterativeRegression_def Let_def del: reg_free.simps)
      with reg_free_errors[OF Inl] show ?thesis by blast
    next
      case (Inr r)
      with assms False show ?thesis
        by (cases r) (simp_all add: iterativeRegression_def Let_def del: reg_free.simps)
    qed
  qed
qed

lemma iterativeRegression_single_fixed:
  assumes "0 < maxIterRegression cfg" "lstsq_origin L [x] [y] = Inr s"
    "meanclip L (nSigmaClipRegression cfg) [y - s * x] = Inr rm"
    "varclip L (nSigmaClipRegression cfg) [y - s * x] = Inr v"
  shows "iterativeRegression L cfg [x] [y] True None None = Inr (s, 0)"
  using reg_fixed_single[OF assms]
  by (simp add: iterativeRegression_def del: reg_fixed.simps)

lemma iterativeRegression_single_free:
  assumes "0 < maxIterRegression cfg" "lstsq_line L [x] [y] = Inr (s, i)"
    "meanclip L (nSigmaClipRegression cfg) [y - s * x - i] = Inr rm"
    "varclip L (nSigmaClipRegression cfg) [y - s * x - i] = Inr v"
  shows "iterativeRegression L cfg [x] [y] False None None = Inr (s, i)"
  using reg_free_single[OF assms]
  by (simp add: iterativeRegression_def del: reg_free.simps)

text \<open>
  C8, as amended. \<open>_iterativeRegression\<close> makes no test on the number of points, in
  either variant. Without any point the call always ends with an exception. With a single
  point it returns the least-squares fit of that point whenever the least-squares and the
  clipped-statistics primitives return values for it. Whatever the points, an exception of
  the call is one a primitive raised, the \<open>ValueError\<close> of \<open>np.max\<close> on an empty
  residual array, or the \<open>NameError\<close> of a loop that never ran.
\<close>

theorem iterativeRegression_no_point_count_test:
  "(\<exists>e. iterativeRegression L cfg [] [] fixThroughOrigin nSigmaClip maxIter = Inl e)
   \<and> (0 < maxIterRegression cfg \<and> lstsq_origin L [x] [y] = Inr s
        \<and> (\<exists>rm. meanclip L (nSigmaClipRegression cfg) [y - s * x] = Inr rm)
        \<and> (\<exists>v. varclip L (nSigmaClipRegression cfg) [y - s * x] = Inr v)
      \<longrightarrow> iterativeRegression L cfg [x] [y] True None None = Inr (s, 0))
   \<and> (0 < maxIterRegression cfg \<and> lstsq_line L [x] [y] = Inr (s', i')
        \<and> (\<exists>rm. meanclip L (nSigmaClipRegression cfg) [y - s' * x - i'] = Inr rm)
        \<and> (\<exists>v. varclip L (nSigmaClipRegression cfg) [y - s' * x - i'] = Inr v)
      \<longrightarrow> iterativeRegression L cfg [x] [y] False None None = Inr (s', i'))
   \<and> (iterativeRegression L cfg xs ys fixThroughOrigin nSigmaClip maxIter = Inl e
      \<longrightarrow> e = NameError \<or> e = ValueError
         \<or> (\<exists>us vs. lstsq_origin L us vs = Inl e \<or> lstsq_line L us vs = Inl e)
         \<or> (\<exists>n us. meanclip L n us = Inl e \<or> varclip L n us = Inl e))"
  using iterativeRegression_empty[of L cfg fixThroughOrigin nSigmaClip maxIter]
    iterativeRegression_single_fixed[of cfg L x y s]
    iterativeRegression_single_free[of cfg L x y s' i']
    iterativeRegression_errors[of L cfg xs ys fixThroughOrigin nSigmaClip maxIter e]
  by blast

theorem iterativeRegression_no_point_count_test_witness:
  "0 < maxIterRegression default_config
   \<and> lstsq_origin plain_lib [2] [4] = Inr 2
   \<and> meanclip plain_lib (nSigmaClipRegression default_config) [4 - 2 * 2] = Inr 0
   \<and> varclip plain_lib (nSigmaClipRegression default_config) [4 - 2 * 2] = Inr 0
   \<and> iterativeRegression plain_lib default_config [2] [4] True None None = Inr (2, 0)"
proof -
  have h: "0 < maxIterRegression default_config"
    "lstsq_origin plain_lib [2] [4] = Inr 2"
    "meanclip plain_lib (nSigmaClipRegression default_config) [4 - 2 * 2] = Inr 0"
    "varclip plain_lib (nSigmaClipRegression default_config) [4 - 2 * 2] = Inr 0"
    by (simp_all add: default_config_def plain_lib_def mean_of_def)
  from iterativeRegression_no_point_count_test[of plain_lib default_config _ _ _ 2 4 2] h
  have "iterativeRegression plain_lib default_config [2] [4] True None None = Inr (2, 0)"
    by blast
  with h show ?thesis by blast
qed

text \<open>
  C8 as stated fails: with one point left the routine does not fail by itself. On the
  reference instance of the primitives the single point \<open>(1, 3)\<close> gives the fit
  \<open>(3, 0)\<close> through the origin and the fit \<open>(3/2, 3/2)\<close> with a free intercept.
\<close>

theorem iterativeRegression_single_point_returns:
  "iterativeRegression plain_lib default_config [1] [3] True None None = Inr (3, 0)
   \<and> iterativeRegression plain_lib default_config [1] [3] False None None = Inr (3 / 2, 3 / 2)"
  by (simp add: iterativeRegression_def default_config_def plain_lib_def mean_of_def
      outliers_def reg_stop_def Let_def)

subsection \<open>The relaxation solver: relaxation factor and end of the loop\<close>

lemma sor_point_omega: "omega (sor_point source i j s) = omega s"
  by (simp add: sor_point_def Let_def)

lemma sor_row_omega: "omega (fold (\<lambda>j s2. sor_point source i j s2) js s) = omega s"
  by (induction js arbitrary: s) (simp_all add: sor_point_omega)

lemma sor_block_omega: "omega (sor_block source is js s) = omega s"
  unfolding sor_block_def
  by (induction "is" arbitrary: s) (simp_all add: sor_row_omega)

lemma half_sweep_omega: "omega (half_sweep source n s) = omega s"
  by (simp add: half_sweep_def Let_def sor_block_omega)

lemma sor_iter_omega:
  "omega (sor_iter source rhoSpe s0 k) = (if k = 0 then omega s0 else next_omega rhoSpe (k - 1) (omega (sor_iter source rhoSpe s0 (k - 1))))"
  by (cases k) (simp_all add: advance_def half_sweep_omega)

lemma sor_iter_omega_seq:
  "omega s0 = 1 \<Longrightarrow> omega (sor_iter source rhoSpe s0 k) = omega_seq rhoSpe k"
  by (induction k) (simp_all add: advance_def half_sweep_omega)

lemma sor_loop_unroll:
  assumes "n \<le> budget"
  shows "sor_loop source rhoSpe inError eLevel budget n (sor_iter source rhoSpe s0 n) =
     (if \<exists>k. n \<le> k \<and> k < budget \<and> stops source rhoSpe inError eLevel s0 k
      then (let k = (LEAST k. n \<le> k \<and> stops source rhoSpe inError eLevel s0 k)
            in (k, half_sweep source k (sor_iter source rhoSpe s0 k)))
      else (budget, sor_iter source rhoSpe s0 budget))"
  using assms
proof (induction "budget - n" arbitrary: n)
  case 0
  then have "n = budget" by simp
  then show ?case by (subst sor_loop.simps) auto
next
  case (Suc d)
  then have lt: "n < budget" by simp
  let ?P = "\<lambda>k. stops source rhoSpe inError eLevel s0 k"
  show ?case
  proof (cases "?P n")
    case True
    have "(LEAST k. n \<le> k \<and> ?P k) = n"
      by (rule Least_equality) (use True in auto)
    moreover have "\<exists>k. n \<le> k \<and> k < budget \<and> ?P k" using True lt by blast
    ultimately show ?thesis
      using True lt
      by (subst sor_loop.simps) (simp add: stops_def Let_def)
  next
    case False
    have step: "sor_loop source rhoSpe inError eLevel budget n (sor_iter source rhoSpe s0 n)
        = sor_loop source rhoSpe inError eLevel budget (Suc n) (sor_iter source rhoSpe s0 (Suc n))"
      using False lt by (subst sor_loop.simps) (simp add: stops_def Let_def)
    have d: "d = budget - Suc n" using Suc.hyps(2) by simp
    have le: "Suc n \<le> budget" using lt by simp
    have ex: "(\<exists>k. n \<le> k \<and> k < budget \<and> ?P k) = (\<exists>k. Suc n \<le> k \<and> k < budget \<and> ?P k)"
      using False by (metis Suc_leI le_neq_implies_less Suc_leD)
    have least: "(LEAST k. n \<le> k \<and> ?P k) = (LEAST k. Suc n \<le> k \<and> ?P k)"
    proof -
      have "(\<lambda>k. n \<le> k \<and> ?P k) = (\<lambda>k. Suc n \<le> k \<and> ?P k)"
        using False by (metis Suc_leI le_neq_implies_less Suc_leD)
      then show ?thesis by simp
    qed
    show ?thesis
      unfolding step ex least using Suc.hyps(1)[OF d le] by simp
  qed
qed


lemma sor_loop_stops_at:
  assumes "k < budget" "stops source rhoSpe inError eLevel s0 k"
    "\<forall>j<k. \<not> stops source rhoSpe inError eLevel s0 j"
  shows "sor_loop source rhoSpe inError eLevel budget 0 s0
         = (k, half_sweep source k (sor_iter source rhoSpe s0 k))"
proof -
  have l: "(LEAST j. 0 \<le> j \<and> stops source rhoSpe inError eLevel s0 j) = k"
  proof (rule Least_equality)
    show "0 \<le> k \<and> stops source rhoSpe inError eLevel s0 k" using assms(2) by simp
  next
    fix y assume "0 \<le> y \<and> stops source rhoSpe inError eLevel s0 y"
    then show "k \<le> y" using assms(3) by (meson not_le)
  qed
  have e: "\<exists>j. 0 \<le> j \<and> j < budget \<and> stops source rhoSpe inError eLevel s0 j"
    using assms(1,2) by blast
  from sor_loop_unroll[of 0 budget source rhoSpe inError eLevel s0] e l
  show ?thesis by (simp add: Let_def)
qed

lemma sor_loop_exhausts:
  assumes "\<forall>k<budget. \<not> stops source rhoSpe inError eLevel s0 k"
  shows "sor_loop source rhoSpe inError eLevel budget 0 s0
         = (budget, sor_iter source rhoSpe s0 budget)"
proof -
  from sor_loop_unroll[of 0 budget source rhoSpe inError eLevel s0] assms
  show ?thesis by auto
qed

text \<open>
  C5, as amended. With \<open>\<rho> = cos(\<pi> / source.shape[0])\<close>, the relaxation factor is
  \<open>1\<close> in the first half-sweep, \<open>1/(1 - \<rho>\<^sup>2/2)\<close> in the second and
  \<open>1/(1 - \<rho>\<^sup>2\<omega>/4)\<close> of its previous value in each later one: it is recomputed
  after every half-sweep that does not end the loop, twice in a full iteration. The
  convergence test is made after every half-sweep, on the sum of the absolute values of the
  whole residual array, of which a half-sweep renews one colour. The loop ends with the first
  half-sweep \<open>k\<close> (counted from 0, \<open>k < 2 maxIter\<close>) after which that sum is below
  \<open>eLevel\<close> times the initial sum, and then \<open>nIter = k\<close>; or after \<open>2 maxIter\<close>
  half-sweeps when there is none.
\<close>

theorem sor_omega_schedule_and_stop:
  "(let rhoSpe = cos (pi / real (nrows source)); s0 = sor_init source;
        inError = sumabs2 (resid s0)
    in omega_seq rhoSpe 0 = 1
     \<and> omega_seq rhoSpe 1 = 1 / (1 - rhoSpe * rhoSpe / 2)
     \<and> omega_seq rhoSpe (j + 2) = 1 / (1 - rhoSpe * rhoSpe * omega_seq rhoSpe (j + 1) / 4)
     \<and> omega (sor_iter source rhoSpe s0 j) = omega_seq rhoSpe j
     \<and> omega (half_sweep source j (sor_iter source rhoSpe s0 j)) = omega_seq rhoSpe j
     \<and> (k < budget \<and> stops source rhoSpe inError eLevel s0 k
          \<and> (\<forall>i<k. \<not> stops source rhoSpe inError eLevel s0 i)
        \<longrightarrow> sor_final source budget eLevel
              = (k, half_sweep source k (sor_iter source rhoSpe s0 k)))
     \<and> ((\<forall>i<budget. \<not> stops source rhoSpe inError eLevel s0 i)
        \<longrightarrow> sor_final source budget eLevel = (budget, sor_iter source rhoSpe s0 budget)))"
proof -
  let ?rho = "cos (pi / real (nrows source))"
  let ?s0 = "sor_init source"
  let ?in = "sumabs2 (resid ?s0)"
  have o: "omega ?s0 = 1" by (simp add: sor_init_def Let_def)
  have a: "omega_seq ?rho 0 = 1" "omega_seq ?rho 1 = 1 / (1 - ?rho * ?rho / 2)"
    "omega_seq ?rho (j + 2) = 1 / (1 - ?rho * ?rho * omega_seq ?rho (j + 1) / 4)"
    by (simp_all add: next_omega_def)
  have b: "omega (sor_iter source ?rho ?s0 j) = omega_seq ?rho j"
    using o by (rule sor_iter_omega_seq)
  have c: "omega (half_sweep source j (sor_iter source ?rho ?s0 j)) = omega_seq ?rho j"
    using b by (simp add: half_sweep_omega)
  have d: "sor_final source budget eLevel = (k, half_sweep source k (sor_iter source ?rho ?s0 k))"
    if "k < budget" "stops source ?rho ?in eLevel ?s0 k"
      "\<forall>i<k. \<not> stops source ?rho ?in eLevel ?s0 i"
    using sor_loop_stops_at[OF that] by (simp add: sor_final_def Let_def)
  have e: "sor_final source budget eLevel = (budget, sor_iter source ?rho ?s0 budget)"
    if "\<forall>i<budget. \<not> stops source ?rho ?in eLevel ?s0 i"
    using sor_loop_exhausts[OF that] by (simp add: sor_final_def Let_def)
  show ?thesis
    unfolding Let_def using a b c d e by blast
qed

text \<open>Two runs: a unit source at the centre of a grid of side 3, and a grid of side 1.\<close>

lemma sor_run_side3: "sor_loop [[0, 0, 0], [0, 1, 0], [0, 0, 0]] (1 / 2) 1 (5 / 10 ^ 14) 2 0
       (sor_init [[0, 0, 0], [0, 1, 0], [0, 0, 0]]) =
  (2, \<lparr>func = [[0, 0, 0, 0, 0], [0, 0, - (1 / 14), 0, 0],
         [0, - (1 / 14), - (1 / 4), - (1 / 14), 0],
         [0, 0, - (1 / 14), 0, 0], [0, 0, 0, 0, 0]],
        resid = [[0, 0, 0, 0, 0], [0, 0, - (1 / 4), 0, 0],
           [0, - (1 / 4), - 1, - (1 / 4), 0], [0, 0, - (1 / 4), 0, 0],
           [0, 0, 0, 0, 0]],
        omega = 14 / 13\<rparr>)"
  by code_simp

lemma sor_inError_side3: "sumabs2 (resid (sor_init [[0, 0, 0], [0, 1, 0], [0, 0, 0]])) = 1"
  by code_simp

lemma sor_run_side1: "sor_loop [[1]] (- 1) 1 (5 / 10 ^ 14) 20000 0 (sor_init [[1]]) =
   (2, \<lparr>func = [[0, 0, 0], [0, - (1 / 4), 0], [0, 0, 0]],
        resid = [[0, 0, 0], [0, 0, 0], [0, 0, 0]], omega = 2\<rparr>)"
  by code_simp

lemma sor_inError_side1: "sumabs2 (resid (sor_init [[1]])) = 1"
  by code_simp

text \<open>
  C5 as stated fails. For the source of side 3 (\<open>\<rho> = 1/2\<close>) and \<open>maxIter = 1\<close>, after
  the two half-sweeps of the one full iteration the factor is \<open>14/13\<close>, its second
  recomputed value, not \<open>1/(1 - \<rho>\<^sup>2/2) = 8/7\<close>. For the source \<open>[[1]]\<close> with the
  default \<open>eLevel\<close> the loop ends with \<open>nIter = 2\<close>, in the third half-sweep, the
  first half of the second full iteration.
\<close>

theorem sor_omega_per_half_sweep:
  "sor_final [[0, 0, 0], [0, 1, 0], [0, 0, 0]] 2 (5 / 10 ^ 14) =
     (2, \<lparr>func = [[0, 0, 0, 0, 0], [0, 0, - (1 / 14), 0, 0],
         [0, - (1 / 14), - (1 / 4), - (1 / 14), 0],
         [0, 0, - (1 / 14), 0, 0], [0, 0, 0, 0, 0]],
        resid = [[0, 0, 0, 0, 0], [0, 0, - (1 / 4), 0, 0],
           [0, - (1 / 4), - 1, - (1 / 4), 0], [0, 0, - (1 / 4), 0, 0],
           [0, 0, 0, 0, 0]],
        omega = 14 / 13\<rparr>)
   \<and> cos (pi / real (nrows [[0, 0, 0], [0, 1, 0], [0, 0, 0]])) = 1 / 2
   \<and> (14 / 13 :: real) \<noteq> 1 / (1 - (1 / 2) * (1 / 2) / 2)
   \<and> sor_final [[1]] 20000 (5 / 10 ^ 14) =
       (2, \<lparr>func = [[0, 0, 0], [0, - (1 / 4), 0], [0, 0, 0]],
            resid = [[0, 0, 0], [0, 0, 0], [0, 0, 0]], omega = 2\<rparr>)"
proof -
  have r3: "cos (pi / real (nrows [[0, 0, 0], [0, 1, 0], [0, 0, 0::real]])) = 1 / 2"
    by (simp add: nrows_def cos_60)
  have r1: "cos (pi / real (nrows [[1::real]])) = - 1"
    by (simp add: nrows_def)
  show ?thesis
    unfolding sor_final_def Let_def r3 r1 sor_inError_side3 sor_inError_side1 sor_run_side3 sor_run_side1 by simp
qed


lemma sor_stops_side1: "stops [[1]] (- 1) 1 (5 / 10 ^ 14) (sor_init [[1]]) 2
   \<and> \<not> stops [[1]] (- 1) 1 (5 / 10 ^ 14) (sor_init [[1]]) 0
   \<and> \<not> stops [[1]] (- 1) 1 (5 / 10 ^ 14) (sor_init [[1]]) (Suc 0)"
  by code_simp

lemma sor_stops_side3: "\<not> stops [[0, 0, 0], [0, 1, 0], [0, 0, 0]] (1 / 2) 1 (5 / 10 ^ 14)
        (sor_init [[0, 0, 0], [0, 1, 0], [0, 0, 0]]) 0
   \<and> \<not> stops [[0, 0, 0], [0, 1, 0], [0, 0, 0]] (1 / 2) 1 (5 / 10 ^ 14)
        (sor_init [[0, 0, 0], [0, 1, 0], [0, 0, 0]]) (Suc 0)"
  by code_simp

theorem sor_omega_schedule_and_stop_witness:
  "(2::nat) < 20000
   \<and> stops [[1]] (- 1) 1 (5 / 10 ^ 14) (sor_init [[1]]) 2
   \<and> \<not> stops [[1]] (- 1) 1 (5 / 10 ^ 14) (sor_init [[1]]) 0
   \<and> \<not> stops [[1]] (- 1) 1 (5 / 10 ^ 14) (sor_init [[1]]) (Suc 0)
   \<and> sor_final [[1]] 20000 (5 / 10 ^ 14)
       = (2, half_sweep [[1]] 2 (sor_iter [[1]] (- 1) (sor_init [[1]]) 2))
   \<and> \<not> stops [[0, 0, 0], [0, 1, 0], [0, 0, 0]] (1 / 2) 1 (5 / 10 ^ 14)
        (sor_init [[0, 0, 0], [0, 1, 0], [0, 0, 0]]) 0
   \<and> \<not> stops [[0, 0, 0], [0, 1, 0], [0, 0, 0]] (1 / 2) 1 (5 / 10 ^ 14)
        (sor_init [[0, 0, 0], [0, 1, 0], [0, 0, 0]]) (Suc 0)
   \<and> sor_final [[0, 0, 0], [0, 1, 0], [0, 0, 0]] 2 (5 / 10 ^ 14)
       = (2, sor_iter [[0, 0, 0], [0, 1, 0], [0, 0, 0]] (1 / 2)
               (sor_init [[0, 0, 0], [0, 1, 0], [0, 0, 0]]) 2)"
proof -
  have r3: "cos (pi / real (nrows [[0, 0, 0], [0, 1, 0], [0, 0, 0::real]])) = 1 / 2"
    by (simp add: nrows_def cos_60)
  have r1: "cos (pi / real (nrows [[1::real]])) = - 1"
    by (simp add: nrows_def)
  have all1: "\<forall>i<2. \<not> stops [[1]] (- 1) 1 (5 / 10 ^ 14) (sor_init [[1]]) i"
    using sor_stops_side1 by (auto simp: less_2_cases_iff)
  have all3: "\<forall>i<2. \<not> stops [[0, 0, 0], [0, 1, 0], [0, 0, 0]] (1 / 2) 1 (5 / 10 ^ 14)
        (sor_init [[0, 0, 0], [0, 1, 0], [0, 0, 0]]) i"
    using sor_stops_side3 by (auto simp: less_2_cases_iff)
  have a: "sor_final [[1]] 20000 (5 / 10 ^ 14)
       = (2, half_sweep [[1]] 2 (sor_iter [[1]] (- 1) (sor_init [[1]]) 2))"
    using sor_omega_schedule_and_stop[of "[[1]]" 0 2 20000 "5 / 10 ^ 14"] sor_stops_side1 all1
    unfolding Let_def r1 sor_inError_side1 by simp
  have b: "sor_final [[0, 0, 0], [0, 1, 0], [0, 0, 0]] 2 (5 / 10 ^ 14)
       = (2, sor_iter [[0, 0, 0], [0, 1, 0], [0, 0, 0]] (1 / 2)
               (sor_init [[0, 0, 0], [0, 1, 0], [0, 0, 0]]) 2)"
    using sor_omega_schedule_and_stop[of "[[0, 0, 0], [0, 1, 0], [0, 0, 0]]" 0 0 2 "5 / 10 ^ 14"] all3
    unfolding Let_def r3 sor_inError_side3 by simp
  show ?thesis using a b sor_stops_side1 sor_stops_side3 by simp
qed

subsection \<open>The relaxation solver on a zero source\<close>

lemma zeros_nth: "i < r \<Longrightarrow> j < c \<Longrightarrow> zeros r c ! i ! j = 0"
  by (simp add: zeros_def)

lemma set2_zeros: "set2 (zeros r c) i j 0 = zeros r c"
proof (cases "i < r")
  case True
  have "(replicate c (0::real))[j := 0] = replicate c 0"
    by (cases "j < c") (simp_all add: list_eq_iff_nth_eq nth_list_update)
  then show ?thesis using True
    by (simp add: set2_def zeros_def list_eq_iff_nth_eq nth_list_update)
next
  case False
  then show ?thesis by (simp add: set2_def zeros_def list_update_beyond)
qed

lemma set_range2: "set (range2 a b) \<subseteq> {a..<b}"
  by (auto simp: range2_def)

lemma sor_point_zero:
  assumes "zero_state n s" "1 \<le> i" "i \<le> n" "1 \<le> j" "j \<le> n"
  shows "zero_state n (sor_point (zeros n n) i j s)"
proof -
  have f: "func s = zeros (n + 2) (n + 2)" and r: "resid s = zeros (n + 2) (n + 2)"
    using assms(1) by (simp_all add: zero_state_def)
  have z: "func s ! i ! (j - 1) = 0" "func s ! i ! (j + 1) = 0" "func s ! (i - 1) ! j = 0"
    "func s ! (i + 1) ! j = 0" "func s ! i ! j = 0" "zeros n n ! (i - 1) ! (j - 1) = 0"
    using assms(2-5) by (simp_all add: f zeros_nth)
  show ?thesis
    unfolding zero_state_def sor_point_def Let_def z
    by (simp add: f r set2_zeros)
qed

lemma sor_row_zero:
  assumes "zero_state n s" "1 \<le> i" "i \<le> n" "\<forall>j\<in>set js. 1 \<le> j \<and> j \<le> n"
  shows "zero_state n (fold (\<lambda>j s2. sor_point (zeros n n) i j s2) js s)"
  using assms by (induction js arbitrary: s) (simp_all add: sor_point_zero)

lemma sor_block_zero:
  assumes "zero_state n s" "\<forall>i\<in>set is. 1 \<le> i \<and> i \<le> n" "\<forall>j\<in>set js. 1 \<le> j \<and> j \<le> n"
  shows "zero_state n (sor_block (zeros n n) is js s)"
  using assms unfolding sor_block_def
  by (induction "is" arbitrary: s) (simp_all add: sor_row_zero)

lemma range2_bounds:
  "1 \<le> a \<Longrightarrow> \<forall>i\<in>set (range2 a (n + 1)). 1 \<le> i \<and> i \<le> n"
  using set_range2[of a "n + 1"] by auto

lemma sor_block_zero_ranges:
  assumes "zero_state n s" "1 \<le> a" "1 \<le> b"
  shows "zero_state n (sor_block (zeros n n) (range2 a (n + 1)) (range2 b (n + 1)) s)"
  using assms(1) range2_bounds[OF assms(2)] range2_bounds[OF assms(3)]
  by (rule sor_block_zero)

lemma half_sweep_zero:
  assumes "zero_state n s"
  shows "zero_state n (half_sweep (zeros n n) k s)"
proof -
  have n1: "nrows (func s) - 1 = n + 1"
    using assms by (simp add: zero_state_def nrows_def zeros_def)
  have a: "zero_state n (sor_block (zeros n n) (range2 2 (n + 1)) (range2 2 (n + 1))
             (sor_block (zeros n n) (range2 1 (n + 1)) (range2 1 (n + 1)) s))"
    by (intro sor_block_zero_ranges assms) simp_all
  have b: "zero_state n (sor_block (zeros n n) (range2 2 (n + 1)) (range2 1 (n + 1))
             (sor_block (zeros n n) (range2 1 (n + 1)) (range2 2 (n + 1)) s))"
    by (intro sor_block_zero_ranges assms) simp_all
  show ?thesis
    unfolding half_sweep_def Let_def n1
    using a b by (cases "k mod 2 = 0") (simp_all only: if_True if_False refl)
qed

lemma advance_zero: "zero_state n s \<Longrightarrow> zero_state n (advance rho k s)"
  by (simp add: zero_state_def advance_def)

lemma sor_iter_zero:
  "zero_state n s0 \<Longrightarrow> zero_state n (sor_iter (zeros n n) rho s0 k)"
  by (induction k) (simp_all add: half_sweep_zero advance_zero)

lemma sumabs2_zeros: "sumabs2 (zeros r c) = 0"
  by (simp add: sumabs2_def zeros_def sum_list_replicate)

lemma stops_zero:
  assumes "zero_state n s0"
  shows "\<not> stops (zeros n n) rho 0 eLevel s0 k"
  using half_sweep_zero[OF sor_iter_zero[OF assms, where rho=rho and k=k], where k=k]
  by (simp add: stops_def converged_def zero_state_def sumabs2_zeros)


lemma nrows_zeros: "nrows (zeros r c) = r"
  by (simp add: nrows_def zeros_def)

lemma ncols_zeros: "0 < r \<Longrightarrow> ncols (zeros r c) = c"
  by (cases r) (simp_all add: ncols_def zeros_def)

lemma butlast_replicate_Suc: "butlast (replicate (Suc n) x) = replicate n x"
  by (induction n) simp_all

lemma middle_replicate: "butlast (tl (replicate (Suc (Suc k)) x)) = replicate k x"
proof -
  have "tl (replicate (Suc (Suc k)) x) = replicate (Suc k) x" by simp
  then show ?thesis by (simp only: butlast_replicate_Suc)
qed

lemma interior_zeros: "interior (zeros (Suc (Suc n)) (Suc (Suc n))) = zeros n n"
  unfolding interior_def zeros_def
  by (simp only: middle_replicate map_replicate)

lemma init_point_zero:
  assumes "m = n + 2" "1 \<le> i" "i \<le> n" "1 \<le> j" "j \<le> n"
  shows "init_point (zeros n n) (zeros m m) i j (zeros m m) = zeros m m"
  using assms by (simp add: init_point_def zeros_nth set2_zeros)

lemma init_row_zero:
  assumes "m = n + 2" "1 \<le> i" "i \<le> n" "\<forall>j\<in>set js. 1 \<le> j \<and> j \<le> n"
  shows "fold (\<lambda>j r2. init_point (zeros n n) (zeros m m) i j r2) js (zeros m m) = zeros m m"
  using assms(4)
proof (induction js)
  case Nil
  then show ?case by simp
next
  case (Cons j js)
  then have "init_point (zeros n n) (zeros m m) i j (zeros m m) = zeros m m"
    using init_point_zero[OF assms(1-3), of j] by simp
  with Cons show ?case by simp
qed

lemma init_rows_zero:
  assumes "m = n + 2" "\<forall>i\<in>set is. 1 \<le> i \<and> i \<le> n" "\<forall>j\<in>set js. 1 \<le> j \<and> j \<le> n"
  shows "fold (\<lambda>i r1. fold (\<lambda>j r2. init_point (zeros n n) (zeros m m) i j r2) js r1)
           is (zeros m m) = zeros m m"
  using assms(2)
proof (induction "is")
  case Nil
  then show ?case by simp
next
  case (Cons i "is")
  then have "fold (\<lambda>j r2. init_point (zeros n n) (zeros m m) i j r2) js (zeros m m) = zeros m m"
    using init_row_zero[OF assms(1) _ _ assms(3), of i] by simp
  with Cons show ?case by simp
qed

lemma sor_init_zeros:
  assumes "m = n + 2"
  shows "sor_init (zeros n n) = \<lparr> func = zeros m m, resid = zeros m m, omega = 1 \<rparr>"
proof (cases "n = 0")
  case True
  then show ?thesis using assms
    by (simp add: sor_init_def init_resid_def Let_def nrows_def ncols_def zeros_def)
next
  case False
  then have c: "ncols (zeros n n) = n" "ncols (zeros m m) = m"
    using assms by (simp_all add: ncols_zeros)
  have r: "[1..<m - 1] = [1..<n + 1]" using assms by simp
  have "init_resid (zeros n n) (zeros m m) (zeros m m) = zeros m m"
    unfolding init_resid_def c nrows_zeros r
    by (rule init_rows_zero[OF assms]) auto
  then show ?thesis
    using assms by (simp add: sor_init_def Let_def c nrows_zeros)
qed

lemma SOR_zero_source:
  assumes "0 < n"
  shows "SOR cfg (zeros n n) maxIter eLevel =
     Inr (Failure (nat ((case maxIter of None \<Rightarrow> maxIterSOR cfg
                          | Some m \<Rightarrow> if m = 0 then maxIterSOR cfg else m) * 2) div 2),
          zeros n n)"
proof -
  define m where "m = n + 2"
  define mi where "mi = (case maxIter of None \<Rightarrow> maxIterSOR cfg
             | Some m \<Rightarrow> if m = 0 then maxIterSOR cfg else m)"
  define el where "el = (case eLevel of None \<Rightarrow> eLevelSOR cfg
             | Some e \<Rightarrow> if e = 0 then eLevelSOR cfg else e)"
  define b where "b = nat (mi * 2)"
  let ?rho = "cos (pi / real n)"
  let ?s0 = "\<lparr> func = zeros m m, resid = zeros m m, omega = 1 \<rparr>"
  have z0: "zero_state n ?s0" by (simp add: zero_state_def m_def)
  have ns: "\<forall>k<b. \<not> stops (zeros n n) ?rho 0 el ?s0 k"
    using stops_zero[OF z0] by blast
  have fin: "sor_final (zeros n n) b el = (b, sor_iter (zeros n n) ?rho ?s0 b)"
    using sor_loop_exhausts[OF ns]
    by (simp add: sor_final_def Let_def sor_init_zeros[OF m_def] sumabs2_zeros nrows_zeros)
  have "zero_state n (sor_iter (zeros n n) ?rho ?s0 b)"
    using z0 by (rule sor_iter_zero)
  then have "func (sor_iter (zeros n n) ?rho ?s0 b) = zeros (Suc (Suc n)) (Suc (Suc n))"
    by (simp add: zero_state_def)
  then have f: "interior (func (sor_iter (zeros n n) ?rho ?s0 b)) = zeros n n"
    by (simp only: interior_zeros)
  have "SOR cfg (zeros n n) maxIter eLevel = Inr (Failure (b div 2), zeros n n)"
    unfolding SOR_def Let_def mi_def[symmetric] el_def[symmetric] b_def[symmetric]
    using assms by (simp add: nrows_zeros ncols_zeros fin f del: sor_iter.simps)
  then show ?thesis by (simp add: b_def mi_def)
qed

text \<open>
  C6. For a source of zeros the solver returns the zero interior, but not after one
  iteration: the initial residual sum is \<open>0\<close>, the test \<open>outError < inError*eLevel\<close>
  is \<open>0 < 0\<close> after every half-sweep, and the loop runs its whole budget and logs the
  failure to converge. For the source \<open>[[0]]\<close>: with \<open>maxIter = 2\<close> the log is the
  failure after 2 iterations, with the default \<open>maxIter\<close> after 10000.
\<close>

theorem SOR_zero_source_exhausts_budget:
  "SOR default_config [[0]] (Some 2) None = Inr (Failure 2, [[0]])
   \<and> SOR default_config [[0]] None None = Inr (Failure 10000, [[0]])"
proof -
  have z: "zeros 1 1 = [[0]]" by (simp add: zeros_def)
  have p: "(0::nat) < 1" by simp
  show ?thesis
    using SOR_zero_source[OF p, of default_config "Some 2" None, unfolded z]
      SOR_zero_source[OF p, of default_config None None, unfolded z]
    by (simp add: default_config_def)
qed

end
